theory Spec2Isabelle
  imports Main "HOL-Library.Sublist" "HOL-Library.Word"
begin

unbundle bit_operations_syntax

section \<open>Python string primitives used by \<open>startup.py\<close>\<close>

text \<open>
  Python 2 \<open>str\<close> values are byte strings; they are modelled as \<open>string\<close>
  (lists of 8-bit characters). \<open>None\<close> is modelled with \<open>option\<close>, and
  every exception the modelled code can raise is a value of \<open>py_error\<close>.
\<close>

datatype py_error =
    AttributeError
  | TypeError
  | ValueError
  | KeyError
  | ReError
  | OverflowError
  | Unsupported

text \<open>
  \<open>s.replace(old, new)\<close>: all non-overlapping occurrences, scanned from the left.
  With an empty \<open>old\<close> Python inserts \<open>new\<close> before every character and at the
  end. For a non-empty \<open>old\<close> the text after a match is
  \<open>drop (length old) (c # cs)\<close>, written here as \<open>drop (length old - 1) cs\<close>.
\<close>

fun py_replace :: "string \<Rightarrow> string \<Rightarrow> string \<Rightarrow> string" where
  "py_replace [] old new = (if old = [] then new else [])"
| "py_replace (c # cs) old new =
     (if old = [] then new @ c # py_replace cs old new
      else if prefix old (c # cs) then new @ py_replace (drop (length old - 1) cs) old new
      else c # py_replace cs old new)"

text \<open>\<open>sub in s\<close> on strings is the contiguous-substring test.\<close>

definition py_in :: "string \<Rightarrow> string \<Rightarrow> bool" where
  "py_in sub s = sublist sub s"

text \<open>\<open>s.lower()\<close> on a byte string in the C locale: only A-Z are changed.\<close>

definition lower_char :: "char \<Rightarrow> char" where
  "lower_char c =
     (case map_of (zip ''ABCDEFGHIJKLMNOPQRSTUVWXYZ'' ''abcdefghijklmnopqrstuvwxyz'') c of
        Some l \<Rightarrow> l
      | None \<Rightarrow> c)"

definition py_lower :: "string \<Rightarrow> string" where
  "py_lower s = map lower_char s"

text \<open>\<open>s.strip()\<close>: removes leading and trailing ASCII whitespace
  (space, tab, newline, carriage return, vertical tab, form feed).\<close>

definition py_isspace :: "char \<Rightarrow> bool" where
  "py_isspace c = (c \<in> set [CHR '' '', CHR 0x09, CHR 0x0A, CHR 0x0D, CHR 0x0B, CHR 0x0C])"

definition py_strip :: "string \<Rightarrow> string" where
  "py_strip s = rev (dropWhile py_isspace (rev (dropWhile py_isspace s)))"

text \<open>\<open>s.find(sub)\<close> for a non-empty \<open>sub\<close>: index of the first occurrence.\<close>

fun py_find :: "string \<Rightarrow> string \<Rightarrow> nat option" where
  "py_find [] sub = (if sub = [] then Some 0 else None)"
| "py_find (c # cs) sub =
     (if prefix sub (c # cs) then Some 0
      else map_option Suc (py_find cs sub))"

text \<open>
  \<open>s.split(sep, 1)\<close>: at most one split, at the first occurrence of \<open>sep\<close>.
  The only call site passes the literal \<open>"."\<close>; Python's \<open>ValueError\<close> for an empty
  separator is returned as an error value.
\<close>

definition py_split1 :: "string \<Rightarrow> string \<Rightarrow> py_error + string list" where
  "py_split1 s sep =
     (if sep = [] then Inl ValueError
      else case py_find s sep of
             None \<Rightarrow> Inr [s]
           | Some i \<Rightarrow> Inr [take i s, drop (i + length sep) s])"

text \<open>\<open>str(x)\<close> for a value that is a string or \<open>None\<close>, as \<open>%s\<close> formats it.\<close>

definition py_str :: "string option \<Rightarrow> string" where
  "py_str v = (case v of None \<Rightarrow> ''None'' | Some s \<Rightarrow> s)"

text \<open>
  \<open>template % (arg,)\<close> with a one-element tuple. The conversions \<open>%s\<close> and \<open>%%\<close>
  are modelled; \<open>%s\<close> consumes the argument. Too few or too many arguments raise
  \<open>TypeError\<close>, a \<open>%\<close> at the end of the format raises \<open>ValueError\<close>; other
  conversion characters are outside the model.
\<close>

fun py_percent :: "string \<Rightarrow> string list \<Rightarrow> py_error + string" where
  "py_percent [] args = (if args = [] then Inr [] else Inl TypeError)"
| "py_percent [c] args =
     (if c = CHR ''%'' then Inl ValueError
      else if args = [] then Inr [c] else Inl TypeError)"
| "py_percent (c # d # cs) args =
     (if c = CHR ''%'' then
        (if d = CHR ''s'' then
           (case args of
              [] \<Rightarrow> Inl TypeError
            | a # as \<Rightarrow> (case py_percent cs as of Inl e \<Rightarrow> Inl e | Inr r \<Rightarrow> Inr (a @ r)))
         else if d = CHR ''%'' then
           (case py_percent cs args of Inl e \<Rightarrow> Inl e | Inr r \<Rightarrow> Inr (CHR ''%'' # r))
         else Inl Unsupported)
      else case py_percent (d # cs) args of Inl e \<Rightarrow> Inl e | Inr r \<Rightarrow> Inr (c # r))"

text \<open>
  A generator, as seen by the loop that consumes it to the end: the items it yields,
  and the exception that ends it, if any. \<open>gen_concat\<close> runs generators one after
  the other, as nested \<open>for\<close> loops that re-yield do; nothing runs after an exception.
\<close>

type_synonym 'a gen = "'a list \<times> py_error option"

fun gen_concat :: "'a gen list \<Rightarrow> 'a gen" where
  "gen_concat [] = ([], None)"
| "gen_concat ((xs, Some e) # gs) = (xs, Some e)"
| "gen_concat ((xs, None) # gs) = (xs @ fst (gen_concat gs), snd (gen_concat gs))"

section \<open>Regular expressions (\<open>re.compile\<close> with \<open>re.IGNORECASE\<close>, \<open>match\<close>)\<close>

text \<open>
  The part of Python 2.7's \<open>re\<close> that the templates use: literals, \<open>.\<close>, character
  sets with ranges and the classes \<open>\d \s \w\<close>, \<open>^\<close> and \<open>$\<close>, capturing and
  named groups, named backreferences, alternation and the greedy repeats
  \<open>* + ? {m,n}\<close>. Syntax outside this part gives \<open>Unsupported\<close>; malformed
  patterns give \<open>ReError\<close> as \<open>sre_parse\<close> raises \<open>re.error\<close>.
\<close>

datatype setitem = SLit char | SRange char char | SDigit | SSpace | SWord

datatype regex =
    REmpty
  | RChar char
  | RAny
  | RSet bool "setitem list"
  | RStart
  | REnd
  | RSeq regex regex
  | RAlt regex regex
  | RRepeat nat "nat option" regex
  | RGroup "string option" regex
  | RBackref string

definition is_digit :: "char \<Rightarrow> bool" where
  "is_digit c = (c \<in> set ''0123456789'')"

definition is_word :: "char \<Rightarrow> bool" where
  "is_word c =
     (c \<in> set ''abcdefghijklmnopqrstuvwxyzABCDEFGHIJKLMNOPQRSTUVWXYZ0123456789_'')"

fun in_setitem :: "char \<Rightarrow> setitem \<Rightarrow> bool" where
  "in_setitem c (SLit d) = (c = d)"
| "in_setitem c (SRange lo hi) = (of_char lo \<le> (of_char c :: nat) \<and> (of_char c :: nat) \<le> of_char hi)"
| "in_setitem c SDigit = is_digit c"
| "in_setitem c SSpace = py_isspace c"
| "in_setitem c SWord = is_word c"

fun lower_setitem :: "setitem \<Rightarrow> setitem" where
  "lower_setitem (SLit d) = SLit (lower_char d)"
| "lower_setitem (SRange lo hi) = SRange (lower_char lo) (lower_char hi)"
| "lower_setitem i = i"

text \<open>
  The backtracking matcher. A state is the number of characters consumed, the text
  that remains and the groups captured so far (latest first). \<open>rmatch\<close> lists the
  states in which a pattern can end, in the order in which the engine tries them
  (alternatives from the left, longer repeats first). Comparison is case-insensitive:
  the subject character and the pattern's literals, set members and range bounds are
  lowered, as \<open>re.IGNORECASE\<close> does for byte strings. \<open>.\<close> matches anything but a
  newline, \<open>$\<close> matches at the end and before a final newline. A repeat body that
  consumes nothing is not repeated beyond the required minimum.
\<close>

type_synonym mstate = "nat \<times> string \<times> (string \<times> string) list"

function rmatch :: "regex \<Rightarrow> mstate \<Rightarrow> mstate list" where
  "rmatch REmpty st = [st]"
| "rmatch (RChar c) (n, s, env) =
     (case s of
        [] \<Rightarrow> []
      | x # xs \<Rightarrow> if lower_char x = lower_char c then [(Suc n, xs, env)] else [])"
| "rmatch RAny (n, s, env) =
     (case s of
        [] \<Rightarrow> []
      | x # xs \<Rightarrow> if x \<noteq> CHR 0x0A then [(Suc n, xs, env)] else [])"
| "rmatch (RSet negate items) (n, s, env) =
     (case s of
        [] \<Rightarrow> []
      | x # xs \<Rightarrow>
          if list_ex (in_setitem (lower_char x)) (map lower_setitem items) \<noteq> negate
          then [(Suc n, xs, env)] else [])"
| "rmatch RStart (n, s, env) = (if n = 0 then [(n, s, env)] else [])"
| "rmatch REnd (n, s, env) = (if s = [] \<or> s = [CHR 0x0A] then [(n, s, env)] else [])"
| "rmatch (RSeq a b) st = concat (map (rmatch b) (rmatch a st))"
| "rmatch (RAlt a b) st = rmatch a st @ rmatch b st"
| "rmatch (RGroup name r) (n, s, env) =
     map (\<lambda>(n', s', env').
            (n', s', case name of None \<Rightarrow> env' | Some g \<Rightarrow> (g, take (n' - n) s) # env'))
       (rmatch r (n, s, env))"
| "rmatch (RBackref g) (n, s, env) =
     (case map_of env g of
        None \<Rightarrow> []
      | Some t \<Rightarrow>
          if length t \<le> length s \<and> map lower_char (take (length t) s) = map lower_char t
          then [(n + length t, drop (length t) s, env)] else [])"
| "rmatch (RRepeat lo hi r) (n, s, env) =
     (if hi = Some 0 then [(n, s, env)]
      else
        concat (map (\<lambda>(n', s', env').
                  if length s' < length s \<or> (0 < lo \<and> length s' \<le> length s)
                  then rmatch (RRepeat (lo - 1) (map_option (\<lambda>h. h - 1) hi) r) (n', s', env')
                  else [])
               (rmatch r (n, s, env)))
        @ (if lo = 0 then [(n, s, env)] else []))"
  by pat_completeness auto
termination
  by (relation "measures [\<lambda>(r, n, s, env). size r,
                          \<lambda>(r, n, s, env). length s,
                          \<lambda>(r, n, s, env). case r of RRepeat lo hi r' \<Rightarrow> lo | _ \<Rightarrow> 0]")
     auto


text \<open>
  The parser, following \<open>sre_parse\<close>. The fuel of \<open>parse_sub\<close> and \<open>parse_seq\<close>
  bounds the number of calls; every call but the first of a subpattern consumes a
  character, so twice the length of the pattern suffices.
\<close>

definition SPECIAL_CHARS :: string where
  "SPECIAL_CHARS = ''.'' @ [CHR 0x5C] @ ''[{()*+?^$|''"

definition is_alpha :: "char \<Rightarrow> bool" where
  "is_alpha c = (c \<in> set ''abcdefghijklmnopqrstuvwxyzABCDEFGHIJKLMNOPQRSTUVWXYZ'')"

definition isname :: "string \<Rightarrow> bool" where
  "isname name =
     (case name of
        [] \<Rightarrow> False
      | c # cs \<Rightarrow> (is_alpha c \<or> c = CHR ''_'') \<and> list_all is_word cs)"

definition digit_value :: "char \<Rightarrow> nat" where
  "digit_value c = (case map_of (zip ''0123456789'' [0, 1, 2, 3, 4, 5, 6, 7, 8, 9]) c of
                      Some d \<Rightarrow> d | None \<Rightarrow> 0)"

definition py_int :: "string \<Rightarrow> nat" where
  "py_int ds = foldl (\<lambda>acc d. 10 * acc + digit_value d) 0 ds"

definition MAXREPEAT :: nat where
  "MAXREPEAT = 65535"

definition class_escape :: "char \<Rightarrow> py_error + setitem" where
  "class_escape d =
     (if d = CHR ''d'' then Inr SDigit
      else if d = CHR ''s'' then Inr SSpace
      else if d = CHR ''w'' then Inr SWord
      else if is_alpha d \<or> is_digit d then Inl Unsupported
      else Inr (SLit d))"

definition set_code :: "string \<Rightarrow> py_error + (setitem \<times> string)" where
  "set_code s =
     (case s of
        [] \<Rightarrow> Inl ReError
      | c # cs \<Rightarrow>
          if c = CHR 0x5C then
            (case cs of
               [] \<Rightarrow> Inl ReError
             | d # rest \<Rightarrow> (case class_escape d of Inl e \<Rightarrow> Inl e | Inr i \<Rightarrow> Inr (i, rest)))
          else Inr (SLit c, cs))"

fun set_loop :: "nat \<Rightarrow> string \<Rightarrow> setitem list \<Rightarrow> py_error + (setitem list \<times> string)" where
  "set_loop 0 s acc = Inl Unsupported"
| "set_loop (Suc fuel) s acc =
     (if prefix '']'' s \<and> acc \<noteq> [] then Inr (rev acc, drop 1 s)
      else case set_code s of
             Inl e \<Rightarrow> Inl e
           | Inr (code1, rest) \<Rightarrow>
               if prefix ''-'' rest then
                 (if prefix '']'' (drop 1 rest) then
                    Inr (rev (SLit (CHR ''-'') # code1 # acc), drop 2 rest)
                  else case set_code (drop 1 rest) of
                         Inl e \<Rightarrow> Inl e
                       | Inr (code2, rest') \<Rightarrow>
                           (case (code1, code2) of
                              (SLit lo, SLit hi) \<Rightarrow>
                                if (of_char hi :: nat) < of_char lo then Inl ReError
                                else set_loop fuel rest' (SRange lo hi # acc)
                            | _ \<Rightarrow> Inl ReError))
               else set_loop fuel rest (code1 # acc))"

definition parse_set :: "string \<Rightarrow> py_error + (regex \<times> string)" where
  "parse_set s =
     (let negate = prefix ''^'' s;
          body = (if negate then drop 1 s else s)
      in case set_loop (Suc (length body)) body [] of
           Inl e \<Rightarrow> Inl e
         | Inr (items, rest) \<Rightarrow> Inr (RSet negate items, rest))"

definition repeat_bounds ::
    "char \<Rightarrow> string \<Rightarrow> (py_error + (nat \<times> nat option \<times> string)) option" where
  "repeat_bounds c s =
     (if c = CHR ''?'' then Some (Inr (0, Some 1, s))
      else if c = CHR ''*'' then Some (Inr (0, None, s))
      else if c = CHR ''+'' then Some (Inr (1, None, s))
      else if prefix ''}'' s then None
      else
        (let lo = takeWhile is_digit s;
             s1 = dropWhile is_digit s;
             hi = (if prefix '','' s1 then takeWhile is_digit (drop 1 s1) else lo);
             s2 = (if prefix '','' s1 then dropWhile is_digit (drop 1 s1) else s1)
         in if \<not> prefix ''}'' s2 then None
            else if (lo \<noteq> [] \<and> MAXREPEAT \<le> py_int lo) \<or> (hi \<noteq> [] \<and> MAXREPEAT \<le> py_int hi)
                 then Some (Inl OverflowError)
            else if hi \<noteq> [] \<and> py_int hi < py_int lo then Some (Inl ReError)
            else Some (Inr (py_int lo, if hi = [] then None else Some (py_int hi), drop 1 s2))))"

fun seq_of :: "regex list \<Rightarrow> regex" where
  "seq_of [] = REmpty"
| "seq_of [r] = r"
| "seq_of (r # rs) = RSeq r (seq_of rs)"

definition read_name :: "char \<Rightarrow> string \<Rightarrow> py_error + (string \<times> string)" where
  "read_name terminator s =
     (if terminator \<notin> set s then Inl ReError
      else let name = takeWhile (\<lambda>c. c \<noteq> terminator) s
           in if \<not> isname name then Inl ReError
              else Inr (name, drop (Suc (length name)) s))"

fun is_repeat :: "regex \<Rightarrow> bool" where
  "is_repeat (RRepeat lo hi r) = True"
| "is_repeat r = False"

fun is_at :: "regex \<Rightarrow> bool" where
  "is_at RStart = True"
| "is_at REnd = True"
| "is_at r = False"

text \<open>One item of a sequence that is not a group: the new item list and the rest.\<close>

definition parse_simple :: "char \<Rightarrow> string \<Rightarrow> regex list \<Rightarrow> py_error + (regex list \<times> string)" where
  "parse_simple c cs acc =
     (if c \<notin> set SPECIAL_CHARS then Inr (RChar c # acc, cs)
      else if c = CHR ''['' then
        (case parse_set cs of
           Inl e \<Rightarrow> Inl e
         | Inr (r, rest) \<Rightarrow> Inr (r # acc, rest))
      else if c \<in> set ''*+?{'' then
        (case repeat_bounds c cs of
           None \<Rightarrow> Inr (RChar c # acc, cs)
         | Some (Inl e) \<Rightarrow> Inl e
         | Some (Inr (lo, hi, rest)) \<Rightarrow>
             (case acc of
                [] \<Rightarrow> Inl ReError
              | item # acc' \<Rightarrow>
                  if is_at item \<or> is_repeat item then Inl ReError
                  else if prefix ''?'' rest then Inl Unsupported
                  else Inr (RRepeat lo hi item # acc', rest)))
      else if c = CHR ''.'' then Inr (RAny # acc, cs)
      else if c = CHR ''^'' then Inr (RStart # acc, cs)
      else if c = CHR ''$'' then Inr (REnd # acc, cs)
      else if c = CHR 0x5C then
        (case cs of
           [] \<Rightarrow> Inl ReError
         | d # rest \<Rightarrow>
             (case class_escape d of
                Inl e \<Rightarrow> Inl e
              | Inr (SLit l) \<Rightarrow> Inr (RChar l # acc, rest)
              | Inr i \<Rightarrow> Inr (RSet False [i] # acc, rest)))
      else Inl ReError)"

text \<open>What follows an opening parenthesis.\<close>

datatype group_header =
    OpenGroup "string option" string "string list"
  | NamedBackref string string

definition parse_group_header :: "string \<Rightarrow> string list \<Rightarrow> py_error + group_header" where
  "parse_group_header cs names =
     (if prefix ''?P<'' cs then
        (case read_name (CHR ''>'') (drop 3 cs) of
           Inl e \<Rightarrow> Inl e
         | Inr (name, rest) \<Rightarrow>
             if name \<in> set names then Inl ReError
             else Inr (OpenGroup (Some name) rest (name # names)))
      else if prefix ''?P='' cs then
        (case read_name (CHR '')'') (drop 3 cs) of
           Inl e \<Rightarrow> Inl e
         | Inr (name, rest) \<Rightarrow>
             if name \<notin> set names then Inl ReError
             else Inr (NamedBackref name rest))
      else if prefix ''?'' cs then Inl Unsupported
      else Inr (OpenGroup None cs names))"

fun parse_sub :: "nat \<Rightarrow> string \<Rightarrow> string list \<Rightarrow> py_error + (regex \<times> string \<times> string list)"
  and parse_seq :: "nat \<Rightarrow> string \<Rightarrow> string list \<Rightarrow> regex list
                      \<Rightarrow> py_error + (regex \<times> string \<times> string list)" where
  "parse_sub 0 s names = Inl Unsupported"
| "parse_sub (Suc fuel) s names =
     (case parse_seq fuel s names [] of
        Inl e \<Rightarrow> Inl e
      | Inr (r, rest, names') \<Rightarrow>
          if prefix ''|'' rest then
            (case parse_sub fuel (drop 1 rest) names' of
               Inl e \<Rightarrow> Inl e
             | Inr (r', rest', names'') \<Rightarrow> Inr (RAlt r r', rest', names''))
          else Inr (r, rest, names'))"
| "parse_seq 0 s names acc = Inl Unsupported"
| "parse_seq (Suc fuel) [] names acc = Inr (seq_of (rev acc), [], names)"
| "parse_seq (Suc fuel) (c # cs) names acc =
     (if c = CHR ''|'' \<or> c = CHR '')'' then Inr (seq_of (rev acc), c # cs, names)
      else if c \<noteq> CHR ''('' then
        (case parse_simple c cs acc of
           Inl e \<Rightarrow> Inl e
         | Inr (acc', rest) \<Rightarrow> parse_seq fuel rest names acc')
      else
        (case parse_group_header cs names of
           Inl e \<Rightarrow> Inl e
         | Inr (NamedBackref name rest) \<Rightarrow> parse_seq fuel rest names (RBackref name # acc)
         | Inr (OpenGroup name rest names') \<Rightarrow>
             (case parse_sub fuel rest names' of
                Inl e \<Rightarrow> Inl e
              | Inr (r, rest', names'') \<Rightarrow>
                  if prefix '')'' rest'
                  then parse_seq fuel (drop 1 rest') names'' (RGroup name r # acc)
                  else Inl ReError)))"

definition re_compile :: "string \<Rightarrow> py_error + regex" where
  "re_compile pattern =
     (case parse_sub (2 * length pattern + 2) pattern [] of
        Inl e \<Rightarrow> Inl e
      | Inr (r, rest, names) \<Rightarrow> if rest = [] then Inr r else Inl ReError)"

text \<open>
  \<open>pattern.match(string)\<close>: the first way to match at the start of the string, if
  any. The result stands for \<open>match.groupdict()\<close> read through \<open>get\<close>.
\<close>

definition re_match :: "regex \<Rightarrow> string \<Rightarrow> (string \<Rightarrow> string option) option" where
  "re_match r s =
     (case rmatch r (0, s, []) of
        [] \<Rightarrow> None
      | (n, rest, env) # others \<Rightarrow> Some (map_of env))"

section \<open>Module-level helpers and constant tables\<close>

text \<open>\<open>_template_to_variation_name\<close> (startup.py, lines 19-25).\<close>

definition template_to_variation_name :: "string \<Rightarrow> string" where
  "template_to_variation_name template =
     py_strip (py_replace (py_replace template ''%s'' '''') ''  '' '' '')"

text \<open>
  \<open>_format\<close> (lines 28-39). \<open>tokens\<close> is a dictionary; the loop visits its items
  in the dictionary's iteration order, so the model takes the items as a list in that
  order. \<open>"{%s}" % key\<close> is \<open>placeholder key\<close>.
\<close>

definition placeholder :: "string \<Rightarrow> string" where
  "placeholder key = ''{'' @ key @ ''}''"

fun format :: "string \<Rightarrow> (string \<times> string) list \<Rightarrow> string" where
  "format template [] = template"
| "format template ((key, val) # tokens) =
     format (py_replace template (placeholder key) val) tokens"

text \<open>The two component lookups (lines 53-71), items in source order.\<close>

definition COMPONENT_GLOB_LOOKUP :: "(string \<times> string) list" where
  "COMPONENT_GLOB_LOOKUP =
     [(''version'', ''*''),
      (''variant'', ''*''),
      (''suffix'', ''*''),
      (''same_version'', ''*''),
      (''major_minor_version'', ''*'')]"

definition COMPONENT_REGEX_LOOKUP :: "(string \<times> string) list" where
  "COMPONENT_REGEX_LOOKUP =
     [(''version'', ''(?P<version>['' @ [CHR 0x5C] @ ''d.v]+)''),
      (''variant'', ''(?P<variant>['' @ [CHR 0x5C] @ ''w'' @ [CHR 0x5C] @ ''s]+)''),
      (''suffix'', ''(?P<suffix> Non-commercial| PLE){0,1}''),
      (''same_version'', ''(?P=version)''),
      (''major_minor_version'', ''(?P<major_minor_version>['' @ [CHR 0x5C] @ ''d.]+)'')]"

definition NUKE_7_8_VARIATION_DISPLAY_NAME_TEMPLATES :: "string list" where
  "NUKE_7_8_VARIATION_DISPLAY_NAME_TEMPLATES =
     [''Nuke %s'',
      ''NukeX %s'',
      ''Nuke %s PLE'',
      ''NukeAssist %s'']"

definition NUKE_7_8_VARIATIONS :: "string list" where
  "NUKE_7_8_VARIATIONS =
     map template_to_variation_name NUKE_7_8_VARIATION_DISPLAY_NAME_TEMPLATES"

definition NUKE_9_OR_HIGHER_VARIATION_DISPLAY_NAME_TEMPLATES :: "string list" where
  "NUKE_9_OR_HIGHER_VARIATION_DISPLAY_NAME_TEMPLATES =
     [''Nuke %s'',
      ''Nuke %s Non-commercial'',
      ''NukeAssist %s'',
      ''NukeStudio %s'',
      ''NukeStudio %s Non-commercial'',
      ''NukeX %s'',
      ''NukeX %s Non-commercial'',
      ''Hiero %s'']"

definition NUKE_9_OR_HIGHER_VARIATIONS :: "string list" where
  "NUKE_9_OR_HIGHER_VARIATIONS =
     map template_to_variation_name NUKE_9_OR_HIGHER_VARIATION_DISPLAY_NAME_TEMPLATES"

text \<open>
  \<open>os.path.expanduser\<close> of \<open>posixpath\<close> for the forms \<open>"~"\<close> and \<open>"~/..."\<close>:
  the home directory (the \<open>HOME\<close> variable, else the password database entry) without
  trailing slashes replaces the tilde. A path that does not start with \<open>"~"\<close> is
  returned unchanged; so is, in this model, the \<open>"~user"\<close> form (as Python does for an
  unknown user).
\<close>

definition posix_expanduser :: "string \<Rightarrow> string \<Rightarrow> string" where
  "posix_expanduser userhome path =
     (if path = ''~'' \<or> prefix ''~/'' path then
        (let r = rev (dropWhile (\<lambda>c. c = CHR ''/'') (rev userhome)) @ drop 1 path
         in if r = [] then ''/'' else r)
      else path)"

text \<open>
  \<open>EXECUTABLE_MATCH_TEMPLATES\<close> (lines 109-124): a dictionary from the platform
  identifier to the list of path templates, a missing key being \<open>None\<close>. The second
  linux2 template depends on the home directory of the user running the interpreter.
\<close>

definition EXECUTABLE_MATCH_TEMPLATES :: "string \<Rightarrow> string \<Rightarrow> string list option" where
  "EXECUTABLE_MATCH_TEMPLATES userhome =
     map_of
       [(''darwin'',
           [''/Applications/Nuke{version}/{variant}{same_version}{suffix}.app'']),
        (''win32'',
           [''C:/Program Files/Nuke{version}/Nuke{major_minor_version}.exe'']),
        (''linux2'',
           [''/usr/local/Nuke{version}/Nuke{major_minor_version}'',
            posix_expanduser userhome ''~/Nuke{version}/Nuke{major_minor_version}''])]"

section \<open>Dictionary iteration order of CPython 2.7\<close>

text \<open>
  Python 2 does not define the order in which a dictionary is iterated. CPython 2.7
  (64-bit \<open>long\<close>, hash randomisation off, the default) determines it as follows: a
  string hashes to \<open>x\<close> computed from its bytes with wrap-around; a dictionary is an
  open-addressing table of initially 8 slots; a new key goes to slot
  \<open>hash & mask\<close> or, when that is taken, to the first free slot of the probe sequence
  \<open>i = 5 i + perturb + 1\<close>, \<open>perturb >>= 5\<close>; the table is rebuilt four times larger
  when two thirds of it are filled; iteration visits the slots in index order. No key
  is ever deleted from the dictionaries of this module.
\<close>

definition py27_string_hash :: "string \<Rightarrow> 64 word" where
  "py27_string_hash s =
     (case s of
        [] \<Rightarrow> 0
      | c # cs \<Rightarrow>
          (let x0 = push_bit 7 (of_char c :: 64 word);
               x1 = foldl (\<lambda>x d. (1000003 * x) XOR of_char d) x0 s;
               x2 = x1 XOR of_nat (length s)
           in if x2 = - 1 then - 2 else x2))"

type_synonym py27_table = "string option list"

fun py27_probe :: "nat \<Rightarrow> py27_table \<Rightarrow> string \<Rightarrow> 64 word \<Rightarrow> 64 word \<Rightarrow> nat option" where
  "py27_probe 0 table key i perturb = None"
| "py27_probe (Suc fuel) table key i perturb =
     (let i' = push_bit 2 i + i + perturb + 1;
          slot = unat (i' AND of_nat (length table - 1))
      in if table ! slot = None \<or> table ! slot = Some key then Some slot
         else py27_probe fuel table key i' (drop_bit 5 perturb))"

definition py27_lookdict :: "py27_table \<Rightarrow> string \<Rightarrow> nat option" where
  "py27_lookdict table key =
     (let hash = py27_string_hash key;
          i = hash AND of_nat (length table - 1);
          slot = unat i
      in if table ! slot = None \<or> table ! slot = Some key then Some slot
         else py27_probe (length table + 14) table key i hash)"

definition py27_insert :: "py27_table \<Rightarrow> string \<Rightarrow> py27_table" where
  "py27_insert table key =
     (case py27_lookdict table key of
        None \<Rightarrow> table
      | Some slot \<Rightarrow> table[slot := Some key])"

fun py27_newsize :: "nat \<Rightarrow> nat \<Rightarrow> nat \<Rightarrow> nat" where
  "py27_newsize 0 newsize minused = newsize"
| "py27_newsize (Suc fuel) newsize minused =
     (if newsize \<le> minused then py27_newsize fuel (2 * newsize) minused else newsize)"

definition py27_used :: "py27_table \<Rightarrow> nat" where
  "py27_used table = length (filter (\<lambda>e. e \<noteq> None) table)"

definition py27_setitem :: "py27_table \<Rightarrow> string \<Rightarrow> py27_table" where
  "py27_setitem table key =
     (let n_used = py27_used table;
          table' = py27_insert table key;
          used = py27_used table'
      in if \<not> (n_used < used \<and> length table' * 2 \<le> used * 3) then table'
         else foldl py27_insert
                (replicate (py27_newsize (Suc used) 8 ((if 50000 < used then 2 else 4) * used)) None)
                (List.map_filter id table'))"

definition py27_dict_iteration :: "string list \<Rightarrow> string list" where
  "py27_dict_iteration keys = List.map_filter id (foldl py27_setitem (replicate 8 None) keys)"

section \<open>The launcher\<close>

text \<open>
  \<open>SoftwareVersion\<close> is a class of the host toolkit (\<open>sgtk.platform\<close>); only its
  attributes matter here. The version attribute holds whatever the regular expression
  group lookup returned, which may be \<open>None\<close>. A version built without a launch-argument
  list has none.
\<close>

record software_version =
  sv_version :: "string option"
  sv_product :: "string option"
  sv_display_name :: string
  sv_path :: string
  sv_icon :: string
  sv_args :: "string list"

text \<open>
  What \<open>self\<close> and the interpreter provide to \<open>NukeLauncher\<close>: the platform
  identifier \<open>sys.platform\<close>, the \<open>disk_location\<close> property, the host's
  \<open>os.path.join\<close>, the home directory that \<open>os.path.expanduser\<close> substitutes, the
  file system as seen through \<open>glob.glob\<close>, the base class's
  \<open>is_version_supported\<close>, and the order in which a dictionary with the given
  insertion sequence of keys is iterated.
\<close>

record launcher =
  sys_platform :: string
  disk_location :: string
  os_path_join :: "string \<Rightarrow> string \<Rightarrow> string"
  home :: string
  glob_glob :: "string \<Rightarrow> string list"
  base_is_version_supported :: "software_version \<Rightarrow> bool"
  dict_iteration :: "string list \<Rightarrow> string list"

text \<open>\<open>_get_icon_from_variant\<close> (lines 126-149). \<open>None.lower()\<close> raises.\<close>

definition get_icon_from_variant :: "launcher \<Rightarrow> string option \<Rightarrow> py_error + string" where
  "get_icon_from_variant self variant =
     (case variant of
        None \<Rightarrow> Inl AttributeError
      | Some v \<Rightarrow>
          if py_in ''studio'' (py_lower v) then
            Inr (os_path_join self (disk_location self) ''icon_studio_256.png'')
          else if py_in ''hiero'' (py_lower v) then
            Inr (os_path_join self (disk_location self) ''icon_hiero_256.png'')
          else if py_in ''nukex'' (py_lower v) then
            Inr (os_path_join self (disk_location self) ''icon_x_256.png'')
          else
            Inr (os_path_join self (disk_location self) ''icon_256.png''))"

text \<open>\<open>_get_variation_templates_from_version\<close> (lines 288-301).\<close>

definition get_variation_templates_from_version :: "string option \<Rightarrow> py_error + string list" where
  "get_variation_templates_from_version version =
     (case version of
        None \<Rightarrow> Inl AttributeError
      | Some v \<Rightarrow>
          (case py_split1 v ''.'' of
             Inl e \<Rightarrow> Inl e
           | Inr parts \<Rightarrow>
               if parts ! 0 \<in> set [''7'', ''8''] then
                 Inr NUKE_7_8_VARIATION_DISPLAY_NAME_TEMPLATES
               else
                 Inr NUKE_9_OR_HIGHER_VARIATION_DISPLAY_NAME_TEMPLATES))"

text \<open>\<open>_get_variations_from_version\<close> (lines 303-316).\<close>

definition get_variations_from_version :: "string option \<Rightarrow> py_error + string list" where
  "get_variations_from_version version =
     (case version of
        None \<Rightarrow> Inl AttributeError
      | Some v \<Rightarrow>
          (case py_split1 v ''.'' of
             Inl e \<Rightarrow> Inl e
           | Inr parts \<Rightarrow>
               if parts ! 0 \<in> set [''7'', ''8''] then
                 Inr NUKE_7_8_VARIATIONS
               else
                 Inr NUKE_9_OR_HIGHER_VARIATIONS))"

text \<open>The launch arguments of one variation template (lines 263-277).\<close>

definition variation_arguments :: "string \<Rightarrow> string list" where
  "variation_arguments variation_template =
     (if py_in ''Studio'' variation_template then [''--studio'']
      else if py_in ''Assist'' variation_template then [''--nukeassist'']
      else if py_in ''NukeX'' variation_template then [''--nukex'']
      else if py_in ''Hiero'' variation_template then [''--hiero'']
      else if py_in ''PLE'' variation_template then [''--ple'']
      else [])
     @ (if py_in ''Non-commercial'' variation_template then [''--nc''] else [])"

text \<open>
  \<open>_extract_variations_from_path\<close> (lines 228-286), a generator. \<open>match\<close> is the
  group dictionary, read only through \<open>match.get\<close>: a missing key and a group that
  did not take part in the match both give \<open>None\<close>.
  \<open>shared_launcher_variation\<close> is the body of the loop over the variation templates:
  it builds one \<open>SoftwareVersion\<close>, or raises.
\<close>

definition shared_launcher_variation ::
    "launcher \<Rightarrow> string \<Rightarrow> string option \<Rightarrow> string \<Rightarrow> py_error + software_version" where
  "shared_launcher_variation self executable_path executable_version variation_template =
     (case py_percent variation_template [py_str executable_version] of
        Inl e \<Rightarrow> Inl e
      | Inr display \<Rightarrow>
          (case get_icon_from_variant self (Some variation_template) of
             Inl e \<Rightarrow> Inl e
           | Inr icon \<Rightarrow>
               Inr \<lparr> sv_version = executable_version,
                     sv_product = Some (template_to_variation_name variation_template),
                     sv_display_name = display,
                     sv_path = executable_path,
                     sv_icon = icon,
                     sv_args = variation_arguments variation_template \<rparr>))"

definition yield_or_raise :: "py_error + 'a \<Rightarrow> 'a gen" where
  "yield_or_raise r = (case r of Inl e \<Rightarrow> ([], Some e) | Inr x \<Rightarrow> ([x], None))"

definition extract_variations_from_path ::
    "launcher \<Rightarrow> string \<Rightarrow> (string \<Rightarrow> string option) \<Rightarrow> software_version gen" where
  "extract_variations_from_path self executable_path match =
     (let executable_version = match ''version'' in
      if sys_platform self = ''darwin'' then
        (let executable_variant = match ''variant'';
             executable_suffix = (case match ''suffix'' of None \<Rightarrow> [] | Some s \<Rightarrow> s);
             display_name = py_str executable_variant @ '' '' @ py_str executable_version
                            @ executable_suffix
         in yield_or_raise
              (case get_icon_from_variant self executable_variant of
                 Inl e \<Rightarrow> Inl e
               | Inr icon \<Rightarrow>
                   Inr \<lparr> sv_version = executable_version,
                         sv_product = executable_variant,
                         sv_display_name = display_name,
                         sv_path = executable_path,
                         sv_icon = icon,
                         sv_args = [] \<rparr>))
      else
        (case get_variation_templates_from_version executable_version of
           Inl e \<Rightarrow> ([], Some e)
         | Inr templates \<Rightarrow>
             gen_concat
               (map (\<lambda>variation_template.
                       yield_or_raise
                         (shared_launcher_variation self executable_path executable_version
                            variation_template))
                    templates)))"

text \<open>\<open>is_version_supported\<close> (lines 341-351); \<open>and\<close> short-circuits.\<close>

definition is_version_supported :: "launcher \<Rightarrow> software_version \<Rightarrow> py_error + bool" where
  "is_version_supported self version =
     (if \<not> base_is_version_supported self version then Inr False
      else case get_variations_from_version (sv_version version) of
             Inl e \<Rightarrow> Inl e
           | Inr variations \<Rightarrow>
               Inr (case sv_product version of
                      None \<Rightarrow> False
                    | Some product \<Rightarrow> product \<in> set variations))"

section \<open>Discovery\<close>

text \<open>
  Dictionaries are kept as association lists in insertion order. \<open>d[key] = v\<close>
  replaces the value of a key that is present and appends a new key otherwise.
  \<open>d.iteritems()\<close> visits the items in the order the host gives to the keys.
\<close>

fun dict_set :: "(string \<times> 'v) list \<Rightarrow> string \<Rightarrow> 'v \<Rightarrow> (string \<times> 'v) list" where
  "dict_set [] key v = [(key, v)]"
| "dict_set ((k, w) # entries) key v =
     (if k = key then (k, v) # entries else (k, w) # dict_set entries key v)"

definition dict_items :: "launcher \<Rightarrow> (string \<times> 'v) list \<Rightarrow> (string \<times> 'v) list" where
  "dict_items self entries =
     List.map_filter (\<lambda>key. map_option (Pair key) (map_of entries key))
       (dict_iteration self (map fst entries))"

text \<open>The glob pattern and the anchored regular expression derived from a template.\<close>

definition glob_form :: "launcher \<Rightarrow> string \<Rightarrow> string" where
  "glob_form self match_template = format match_template (dict_items self COMPONENT_GLOB_LOOKUP)"

definition regex_form :: "launcher \<Rightarrow> string \<Rightarrow> string" where
  "regex_form self match_template =
     ''^'' @ format match_template (dict_items self COMPONENT_REGEX_LOOKUP) @ ''$''"

text \<open>\<open>_find_executables\<close> (lines 151-184).\<close>

definition find_executables :: "launcher \<Rightarrow> string list \<Rightarrow> (string \<times> string list) list" where
  "find_executables self match_templates =
     foldl (\<lambda>executable_matches match_template.
              let glob_pattern = glob_form self match_template;
                  matching_paths = glob_glob self glob_pattern
              in if matching_paths \<noteq> [] then
                   dict_set executable_matches match_template
                     (map (\<lambda>x. py_replace x [CHR 0x5C] ''/'') matching_paths)
                 else executable_matches)
       [] match_templates"

text \<open>
  \<open>_find_software_variations\<close> (lines 186-226), a generator. \<open>path_variations\<close> is
  the body of the loop over the paths of one template, \<open>template_variations\<close> the body
  of the loop over the dictionary's items.
\<close>

definition path_variations :: "launcher \<Rightarrow> regex \<Rightarrow> string \<Rightarrow> software_version gen" where
  "path_variations self executable_regex executable_path =
     (case re_match executable_regex executable_path of
        None \<Rightarrow> ([], None)
      | Some groupdict \<Rightarrow> extract_variations_from_path self executable_path groupdict)"

definition template_variations ::
    "launcher \<Rightarrow> string \<times> string list \<Rightarrow> software_version gen" where
  "template_variations self item =
     (case item of
        (match_template, executable_paths) \<Rightarrow>
          (case re_compile (regex_form self match_template) of
             Inl e \<Rightarrow> ([], Some e)
           | Inr executable_regex \<Rightarrow>
               gen_concat (map (path_variations self executable_regex) executable_paths)))"

definition find_software_variations :: "launcher \<Rightarrow> software_version gen" where
  "find_software_variations self =
     (case EXECUTABLE_MATCH_TEMPLATES (home self) (sys_platform self) of
        None \<Rightarrow> ([], Some KeyError)
      | Some match_templates \<Rightarrow>
          gen_concat
            (map (template_variations self)
               (dict_items self (find_executables self match_templates))))"

text \<open>
  \<open>scan_software\<close> (lines 318-339). \<open>consume\<close> is its loop over the generator:
  each yielded version is tested before the next one is produced, and an exception of
  the test or of the generator ends the scan.
\<close>

fun consume ::
    "launcher \<Rightarrow> software_version list \<Rightarrow> py_error option \<Rightarrow> py_error + software_version list" where
  "consume self [] ending = (case ending of None \<Rightarrow> Inr [] | Some e \<Rightarrow> Inl e)"
| "consume self (software_version # rest) ending =
     (case is_version_supported self software_version of
        Inl e \<Rightarrow> Inl e
      | Inr supported \<Rightarrow>
          (case consume self rest ending of
             Inl e \<Rightarrow> Inl e
           | Inr software_versions \<Rightarrow>
               Inr (if supported then software_version # software_versions
                    else software_versions)))"

definition scan_software :: "launcher \<Rightarrow> py_error + software_version list" where
  "scan_software self =
     (if sys_platform self \<notin> set [''darwin'', ''win32'', ''linux2''] then Inr []
      else case find_software_variations self of
             (yielded, ending) \<Rightarrow> consume self yielded ending)"

section \<open>Glob patterns\<close>

text \<open>
  What \<open>glob.glob\<close> of \<open>posixpath\<close> can return for a pattern: pattern and path have
  the same number of components; a component without wildcard is taken literally; a
  component with a wildcard stands for a directory entry that matches it as
  \<open>fnmatch\<close> does (\<open>*\<close> any text, \<open>?\<close> any character, case-sensitively), entries
  starting with a dot being left out unless the pattern component starts with one.
  Bracket expressions are outside the model.
\<close>

fun split_on :: "char \<Rightarrow> string \<Rightarrow> string list" where
  "split_on sep [] = [[]]"
| "split_on sep (c # cs) =
     (if c = sep then [] # split_on sep cs
      else case split_on sep cs of
             [] \<Rightarrow> [[c]]
           | part # parts \<Rightarrow> (c # part) # parts)"

fun wildcard_match :: "string \<Rightarrow> string \<Rightarrow> bool" where
  "wildcard_match [] name = (name = [])"
| "wildcard_match (p # ps) [] = (p = CHR ''*'' \<and> wildcard_match ps [])"
| "wildcard_match (p # ps) (c # cs) =
     (if p = CHR ''*'' then wildcard_match ps (c # cs) \<or> wildcard_match (p # ps) cs
      else (p = CHR ''?'' \<or> p = c) \<and> wildcard_match ps cs)"

definition has_magic :: "string \<Rightarrow> bool" where
  "has_magic s = list_ex (\<lambda>c. c \<in> set ''*?['') s"

definition component_match :: "string \<Rightarrow> string \<Rightarrow> bool" where
  "component_match pattern name =
     (if has_magic pattern then
        name \<noteq> [] \<and> (hd pattern = CHR ''.'' \<or> hd name \<noteq> CHR ''.'')
        \<and> wildcard_match pattern name
      else name = pattern)"

definition glob_match :: "string \<Rightarrow> string \<Rightarrow> py_error + bool" where
  "glob_match pattern path =
     (if CHR ''['' \<in> set pattern then Inl Unsupported
      else Inr (list_all2 component_match
                  (split_on (CHR ''/'') pattern) (split_on (CHR ''/'') path)))"

section \<open>Reference formulations used in the statements\<close>

text \<open>The part of a version string before its first \<open>"."\<close>.\<close>

definition before_first_dot :: "string \<Rightarrow> string" where
  "before_first_dot v = takeWhile (\<lambda>c. c \<noteq> CHR ''.'') v"

text \<open>
  The keyword tests of the launch-argument chain as a table, and first-match lookup in
  an arbitrary ordering of such a table.
\<close>

definition ARGUMENT_TESTS :: "(string \<times> string) list" where
  "ARGUMENT_TESTS =
     [(''Studio'', ''--studio''),
      (''Assist'', ''--nukeassist''),
      (''NukeX'', ''--nukex''),
      (''Hiero'', ''--hiero''),
      (''PLE'', ''--ple'')]"

fun first_match :: "(string \<times> string) list \<Rightarrow> string \<Rightarrow> string list" where
  "first_match [] t = []"
| "first_match ((keyword, flag) # tests) t =
     (if py_in keyword t then [flag] else first_match tests t)"

definition matching_flags :: "string \<Rightarrow> string list" where
  "matching_flags t = map snd (filter (\<lambda>(keyword, flag). py_in keyword t) ARGUMENT_TESTS)"

definition NON_COMMERCIAL_FLAG :: "string \<Rightarrow> string list" where
  "NON_COMMERCIAL_FLAG t = (if py_in ''Non-commercial'' t then [''--nc''] else [])"

text \<open>
  Case-insensitive containment stated on positions: some window of \<open>s\<close> equals the
  keyword up to letter case. The icon rule as an ordered table with a default.
\<close>

definition contains_ignoring_case :: "string \<Rightarrow> string \<Rightarrow> bool" where
  "contains_ignoring_case keyword s =
     list_ex (\<lambda>i. map lower_char (take (length keyword) (drop i s)) = map lower_char keyword)
       [0..<Suc (length s)]"

definition ICON_TABLE :: "(string \<times> string) list" where
  "ICON_TABLE =
     [(''studio'', ''icon_studio_256.png''),
      (''hiero'', ''icon_hiero_256.png''),
      (''nukex'', ''icon_x_256.png'')]"

fun icon_first_match :: "(string \<times> string) list \<Rightarrow> string \<Rightarrow> string" where
  "icon_first_match [] s = ''icon_256.png''"
| "icon_first_match ((keyword, file) # table) s =
     (if contains_ignoring_case keyword s then file else icon_first_match table s)"

text \<open>
  Replacing every placeholder at once: the template is read from the left, and wherever
  \<open>{key}\<close> stands for a key of the lookup, the key's value is written and reading
  continues after the closing brace; every other character is copied.
\<close>

fun simultaneous :: "(string \<times> string) list \<Rightarrow> string \<Rightarrow> string" where
  "simultaneous tokens [] = []"
| "simultaneous tokens (c # cs) =
     (case find (\<lambda>(key, val). prefix (placeholder key) (c # cs)) tokens of
        Some (key, val) \<Rightarrow> val @ simultaneous tokens (drop (Suc (length key)) cs)
      | None \<Rightarrow> c # simultaneous tokens cs)"

text \<open>
  Templates as sequences of literal characters and placeholders. A chunk is well formed
  when a literal is not a brace and a placeholder name contains no brace.
\<close>

datatype chunk = Lit char | Hole string

fun render :: "chunk list \<Rightarrow> string" where
  "render [] = []"
| "render (Lit c # chunks) = c # render chunks"
| "render (Hole name # chunks) = placeholder name @ render chunks"

definition brace_free :: "string \<Rightarrow> bool" where
  "brace_free s = (CHR ''{'' \<notin> set s \<and> CHR ''}'' \<notin> set s)"

fun wf_chunk :: "chunk \<Rightarrow> bool" where
  "wf_chunk (Lit c) = (c \<noteq> CHR ''{'' \<and> c \<noteq> CHR ''}'')"
| "wf_chunk (Hole name) = brace_free name"

fun holes :: "chunk list \<Rightarrow> string list" where
  "holes [] = []"
| "holes (Lit c # chunks) = holes chunks"
| "holes (Hole name # chunks) = name # holes chunks"

fun substitute :: "(string \<Rightarrow> string option) \<Rightarrow> chunk \<Rightarrow> string" where
  "substitute lookup (Lit c) = [c]"
| "substitute lookup (Hole name) =
     (case lookup name of Some val \<Rightarrow> val | None \<Rightarrow> placeholder name)"

text \<open>
  A lookup given with its values in chunk form; \<open>rendered\<close> turns it into the lookup
  the formatter receives. It is well formed when the keys are distinct and brace free,
  and every value is a well-formed chunk sequence none of whose placeholders names a key.
\<close>

definition rendered :: "(string \<times> chunk list) list \<Rightarrow> (string \<times> string) list" where
  "rendered lookup = map (\<lambda>(key, chunks). (key, render chunks)) lookup"

definition wf_lookup :: "(string \<times> chunk list) list \<Rightarrow> bool" where
  "wf_lookup lookup =
     (distinct (map fst lookup)
      \<and> list_all (\<lambda>(key, chunks).
            brace_free key \<and> list_all wf_chunk chunks
            \<and> list_all (\<lambda>name. name \<notin> set (map fst lookup)) (holes chunks)) lookup)"

text \<open>
  Inserting \<open>val\<close> into a text can never produce an occurrence of \<open>pat\<close> that
  overlaps the inserted copy: \<open>pat\<close> does not contain the first character of
  \<open>val\<close>, does not occur inside \<open>val\<close>, and no non-empty end of \<open>val\<close> starts
  \<open>pat\<close>.
\<close>

definition insertion_safe :: "string \<Rightarrow> string \<Rightarrow> bool" where
  "insertion_safe pat val =
     (val \<noteq> [] \<and> hd val \<notin> set pat \<and> \<not> sublist pat val
      \<and> list_all (\<lambda>t. t = [] \<or> \<not> prefix t pat) (suffixes val))"

definition lookup_safe :: "(string \<times> string) list \<Rightarrow> bool" where
  "lookup_safe tokens =
     list_all (\<lambda>(key, val).
        list_all (\<lambda>(key', val'). insertion_safe (placeholder key') val) tokens) tokens"

text \<open>The darwin path template and the regular-expression lookup in chunk form.\<close>

definition DARWIN_TEMPLATE_CHUNKS :: "chunk list" where
  "DARWIN_TEMPLATE_CHUNKS =
     map Lit ''/Applications/Nuke'' @ [Hole ''version'', Lit (CHR ''/''), Hole ''variant'',
       Hole ''same_version'', Hole ''suffix''] @ map Lit ''.app''"

definition REGEX_LOOKUP_CHUNKS :: "(string \<times> chunk list) list" where
  "REGEX_LOOKUP_CHUNKS =
     [(''version'', map Lit (''(?P<version>['' @ [CHR 0x5C] @ ''d.v]+)'')),
      (''variant'', map Lit (''(?P<variant>['' @ [CHR 0x5C] @ ''w'' @ [CHR 0x5C] @ ''s]+)'')),
      (''suffix'', map Lit ''(?P<suffix> Non-commercial| PLE)'' @ [Hole ''0,1'']),
      (''same_version'', map Lit ''(?P=version)''),
      (''major_minor_version'',
         map Lit (''(?P<major_minor_version>['' @ [CHR 0x5C] @ ''d.]+)''))]"

text \<open>Filling one placeholder name in a chunk sequence with a value in chunk form.\<close>

fun fill :: "string \<Rightarrow> chunk list \<Rightarrow> chunk \<Rightarrow> chunk list" where
  "fill key vs (Lit c) = [Lit c]"
| "fill key vs (Hole name) = (if name = key then vs else [Hole name])"

text \<open>
  Concrete hosts used to instantiate the theorems: CPython 2.7 dictionaries, a base
  class that accepts every version, and a file system holding the listed paths, which
  \<open>glob.glob\<close> returns in the listed order.
\<close>

definition example_host :: "string \<Rightarrow> string \<Rightarrow> string list \<Rightarrow> launcher" where
  "example_host platform userhome files =
     \<lparr> sys_platform = platform,
       disk_location = ''/engine'',
       os_path_join = (\<lambda>a b. a @ ''/'' @ b),
       home = userhome,
       glob_glob = (\<lambda>pattern. filter (\<lambda>path. glob_match pattern path = Inr True) files),
       base_is_version_supported = (\<lambda>v. True),
       dict_iteration = py27_dict_iteration \<rparr>"

definition example_launcher :: "string \<Rightarrow> launcher" where
  "example_launcher platform = example_host platform ''/home/artist'' []"

text \<open>
  Discovery order: the dictionary's items in iteration order, for each item its paths
  in the order the finder stored them, for each path the variations it yields.
\<close>

definition yielded_for_path :: "launcher \<Rightarrow> string \<Rightarrow> string \<Rightarrow> software_version list" where
  "yielded_for_path self match_template executable_path =
     (case re_compile (regex_form self match_template) of
        Inl e \<Rightarrow> []
      | Inr executable_regex \<Rightarrow> fst (path_variations self executable_regex executable_path))"

definition discovery_order :: "launcher \<Rightarrow> string list \<Rightarrow> software_version list" where
  "discovery_order self match_templates =
     concat (map (\<lambda>(match_template, executable_paths).
                    concat (map (yielded_for_path self match_template) executable_paths))
               (dict_items self (find_executables self match_templates)))"

text \<open>The templates for which the finder found paths, each once, in order of first use.\<close>

definition templates_with_matches :: "launcher \<Rightarrow> string list \<Rightarrow> string list" where
  "templates_with_matches self match_templates =
     rev (remdups (rev (filter (\<lambda>t. glob_glob self (glob_form self t) \<noteq> []) match_templates)))"

text \<open>
  Two installations used as examples: a mac with the NukeX bundle of Nuke 10.0v5 and an
  uninstaller beside it, and a Linux machine with Nuke 10.0v5 both under
  \<open>/usr/local\<close> and in the home directory of the user \<open>artist\<close>.
\<close>

definition darwin_example :: launcher where
  "darwin_example =
     example_host ''darwin'' ''/Users/artist''
       [''/Applications/Nuke10.0v5/NukeX10.0v5.app'',
        ''/Applications/Nuke10.0v5/Uninstall.app'']"

definition linux_example :: launcher where
  "linux_example =
     example_host ''linux2'' ''/home/artist''
       [''/usr/local/Nuke10.0v5/Nuke10.0'',
        ''/home/artist/Nuke10.0v5/Nuke10.0'']"

section \<open>Basic facts about the string primitives\<close>

lemmas in_simps = py_in_def sublist_code

lemma py_find_char:
  "py_find s [c] = (if c \<in> set s then Some (length (takeWhile (\<lambda>x. x \<noteq> c) s)) else None)"
  by (induction s) auto

lemma py_split1_char_first:
  "\<exists>ps. py_split1 v [c] = Inr ps \<and> ps ! 0 = takeWhile (\<lambda>x. x \<noteq> c) v"
proof (cases "c \<in> set v")
  case True
  then show ?thesis
    by (simp add: py_split1_def py_find_char takeWhile_eq_take [symmetric])
next
  case False
  then have tw: "takeWhile (\<lambda>x. x \<noteq> c) v = v"
    by (auto simp: takeWhile_eq_all_conv)
  show ?thesis
    by (simp add: py_split1_def py_find_char False tw)
qed

lemma gen_concat_yield:
  "gen_concat (map (\<lambda>x. yield_or_raise (f x)) xs) = (ys, None)
     \<longleftrightarrow> list_all2 (\<lambda>x y. f x = Inr y) xs ys"
proof (induction xs arbitrary: ys)
  case Nil
  then show ?case by auto
next
  case (Cons x xs)
  show ?case
  proof (cases "f x")
    case (Inl e)
    then show ?thesis by (auto simp: list_all2_Cons1 yield_or_raise_def)
  next
    case (Inr y)
    have "gen_concat (map (\<lambda>x. yield_or_raise (f x)) (x # xs)) = (ys, None)
            \<longleftrightarrow> (\<exists>zs. gen_concat (map (\<lambda>x. yield_or_raise (f x)) xs) = (zs, None)
                      \<and> ys = y # zs)"
      using Inr by (auto simp: yield_or_raise_def prod_eq_iff)
    also have "\<dots> \<longleftrightarrow> (\<exists>zs. list_all2 (\<lambda>x y. f x = Inr y) xs zs \<and> ys = y # zs)"
      using Cons.IH by simp
    also have "\<dots> \<longleftrightarrow> list_all2 (\<lambda>x y. f x = Inr y) (x # xs) ys"
      using Inr by (auto simp: list_all2_Cons1)
    finally show ?thesis .
  qed
qed

lemma sublist_iff_take_drop:
  "sublist xs ys \<longleftrightarrow> (\<exists>i \<le> length ys. take (length xs) (drop i ys) = xs)"
proof
  assume "sublist xs ys"
  then obtain ps ss where "ys = ps @ xs @ ss" by (auto simp: sublist_def)
  then have "length ps \<le> length ys" "take (length xs) (drop (length ps) ys) = xs" by auto
  then show "\<exists>i \<le> length ys. take (length xs) (drop i ys) = xs" by blast
next
  assume "\<exists>i \<le> length ys. take (length xs) (drop i ys) = xs"
  then obtain i where i: "take (length xs) (drop i ys) = xs" by blast
  have "ys = take i ys @ drop i ys" by simp
  also have "drop i ys = take (length xs) (drop i ys) @ drop (length xs) (drop i ys)"
    by (rule append_take_drop_id [symmetric])
  finally have "ys = take i ys @ xs @ drop (length xs) (drop i ys)"
    using i by simp
  then show "sublist xs ys" unfolding sublist_def by blast
qed

lemma lower_char_cases:
  "lower_char c = c \<or> lower_char c \<in> set ''abcdefghijklmnopqrstuvwxyz''"
  by (simp add: lower_char_def)

lemma lower_char_idem: "lower_char (lower_char c) = lower_char c"
  using lower_char_cases [of c] by (auto simp: lower_char_def)

lemma py_lower_idem: "py_lower (py_lower s) = py_lower s"
  by (simp add: py_lower_def lower_char_idem)

section \<open>Selection of the variation list\<close>

lemma templates_from_version_eq:
  "get_variation_templates_from_version (Some v) =
     Inr (if before_first_dot v = ''7'' \<or> before_first_dot v = ''8''
          then NUKE_7_8_VARIATION_DISPLAY_NAME_TEMPLATES
          else NUKE_9_OR_HIGHER_VARIATION_DISPLAY_NAME_TEMPLATES)"
proof -
  obtain ps where ps: "py_split1 v ''.'' = Inr ps" "ps ! 0 = before_first_dot v"
    using py_split1_char_first [of v "CHR ''.''"] by (auto simp: before_first_dot_def)
  then show ?thesis
    by (simp add: get_variation_templates_from_version_def)
qed

text \<open>
  C1. For every version string the variation-template list is determined by the part
  of the string before its first \<open>"."\<close>: the Nuke 7/8 list when that part is exactly
  \<open>"7"\<close> or \<open>"8"\<close>, the Nuke 9+ list of eight templates for everything else; the
  selection always returns a list (it never raises). Boundary values: \<open>"7.0v0"\<close> and
  \<open>"8.0v4"\<close> give the 7/8 list; \<open>"6.3v6"\<close>, \<open>"9.0v1"\<close>, \<open>"10.0v5"\<close> and the
  unparseable \<open>"seven"\<close> give the 9+ list.
\<close>

theorem C1_variation_templates_by_major_version:
  "get_variation_templates_from_version (Some v) =
     Inr (if before_first_dot v = ''7'' \<or> before_first_dot v = ''8''
          then NUKE_7_8_VARIATION_DISPLAY_NAME_TEMPLATES
          else NUKE_9_OR_HIGHER_VARIATION_DISPLAY_NAME_TEMPLATES)
   \<and> length NUKE_9_OR_HIGHER_VARIATION_DISPLAY_NAME_TEMPLATES = 8
   \<and> get_variation_templates_from_version (Some ''7.0v0'')
       = Inr [''Nuke %s'', ''NukeX %s'', ''Nuke %s PLE'', ''NukeAssist %s'']
   \<and> get_variation_templates_from_version (Some ''8.0v4'')
       = Inr NUKE_7_8_VARIATION_DISPLAY_NAME_TEMPLATES
   \<and> get_variation_templates_from_version (Some ''6.3v6'')
       = Inr NUKE_9_OR_HIGHER_VARIATION_DISPLAY_NAME_TEMPLATES
   \<and> get_variation_templates_from_version (Some ''9.0v1'')
       = Inr NUKE_9_OR_HIGHER_VARIATION_DISPLAY_NAME_TEMPLATES
   \<and> get_variation_templates_from_version (Some ''10.0v5'')
       = Inr NUKE_9_OR_HIGHER_VARIATION_DISPLAY_NAME_TEMPLATES
   \<and> get_variation_templates_from_version (Some ''seven'')
       = Inr NUKE_9_OR_HIGHER_VARIATION_DISPLAY_NAME_TEMPLATES"
  by (simp add: templates_from_version_eq before_first_dot_def
      NUKE_7_8_VARIATION_DISPLAY_NAME_TEMPLATES_def
      NUKE_9_OR_HIGHER_VARIATION_DISPLAY_NAME_TEMPLATES_def)

lemma names_follow_templates:
  "get_variation_templates_from_version version = Inr templates \<Longrightarrow>
   get_variations_from_version version = Inr (map template_to_variation_name templates)"
  by (auto simp: get_variation_templates_from_version_def get_variations_from_version_def
      NUKE_7_8_VARIATIONS_def NUKE_9_OR_HIGHER_VARIATIONS_def
      split: option.splits sum.splits if_splits)

lemma templates_fixed:
  "get_variation_templates_from_version version = Inr templates \<Longrightarrow>
   templates = NUKE_7_8_VARIATION_DISPLAY_NAME_TEMPLATES
   \<or> templates = NUKE_9_OR_HIGHER_VARIATION_DISPLAY_NAME_TEMPLATES"
  by (auto simp: get_variation_templates_from_version_def
      split: option.splits sum.splits if_splits)

section \<open>Icon selection\<close>

lemma contains_ignoring_case_lower:
  "contains_ignoring_case keyword s \<longleftrightarrow> py_in (py_lower keyword) (py_lower s)"
proof -
  have "contains_ignoring_case keyword s \<longleftrightarrow>
        (\<exists>i \<le> length s. map lower_char (take (length keyword) (drop i s)) = map lower_char keyword)"
    unfolding contains_ignoring_case_def list_ex_iff
    by (metis atLeastLessThan_iff less_Suc_eq_le set_upt zero_le)
  also have "\<dots> \<longleftrightarrow> py_in (py_lower keyword) (py_lower s)"
    by (simp add: py_in_def py_lower_def sublist_iff_take_drop take_map drop_map)
  finally show ?thesis .
qed

lemma py_lower_keywords:
  "py_lower ''studio'' = ''studio''" "py_lower ''hiero'' = ''hiero''" "py_lower ''nukex'' = ''nukex''"
  by (simp_all add: py_lower_def lower_char_def)

lemma icon_spec:
  "get_icon_from_variant self (Some s)
     = Inr (os_path_join self (disk_location self) (icon_first_match ICON_TABLE s))"
  by (simp add: get_icon_from_variant_def ICON_TABLE_def contains_ignoring_case_lower
      py_lower_keywords)

text \<open>
  C4. For every variant or template string, the icon is found by a case-insensitive
  substring check, first match wins, in the order "studio", "hiero", "nukex", with the
  default icon otherwise; the choice does not depend on the letter case of the text.
  "NukeX" gives the extended-edition icon, plain "Nuke" the default icon.
\<close>

theorem C4_icon_first_match:
  "get_icon_from_variant self (Some s)
     = Inr (os_path_join self (disk_location self) (icon_first_match ICON_TABLE s))
   \<and> get_icon_from_variant self (Some (py_lower s)) = get_icon_from_variant self (Some s)
   \<and> icon_first_match ICON_TABLE ''NukeX'' = ''icon_x_256.png''
   \<and> icon_first_match ICON_TABLE ''Nuke'' = ''icon_256.png''
   \<and> icon_first_match ICON_TABLE ''NukeStudio'' = ''icon_studio_256.png''
   \<and> icon_first_match ICON_TABLE ''Hiero'' = ''icon_hiero_256.png''
   \<and> icon_first_match ICON_TABLE ''HieroPlayer'' = ''icon_hiero_256.png''"
proof -
  have a: "get_icon_from_variant self (Some (py_lower s)) = get_icon_from_variant self (Some s)"
    by (simp add: get_icon_from_variant_def py_lower_idem)
  have b: "icon_first_match ICON_TABLE ''NukeX'' = ''icon_x_256.png''"
    "icon_first_match ICON_TABLE ''Nuke'' = ''icon_256.png''"
    "icon_first_match ICON_TABLE ''NukeStudio'' = ''icon_studio_256.png''"
    "icon_first_match ICON_TABLE ''Hiero'' = ''icon_hiero_256.png''"
    "icon_first_match ICON_TABLE ''HieroPlayer'' = ''icon_hiero_256.png''"
    by (simp_all add: ICON_TABLE_def contains_ignoring_case_lower py_in_def py_lower_def
        lower_char_def sublist_code)
  show ?thesis using icon_spec a b by simp
qed

section \<open>Variation expansion\<close>

lemma extract_shared:
  assumes "sys_platform self \<noteq> ''darwin''"
    and "extract_variations_from_path self executable_path match = (variations, None)"
  shows "\<exists>templates.
           get_variation_templates_from_version (match ''version'') = Inr templates
         \<and> list_all2 (\<lambda>t sv. shared_launcher_variation self executable_path (match ''version'') t = Inr sv)
              templates variations"
  using assms
  by (auto simp: extract_variations_from_path_def Let_def gen_concat_yield split: sum.splits)

lemma shared_fields:
  assumes "shared_launcher_variation self executable_path version t = Inr sv"
  shows "sv_version sv = version" "sv_product sv = Some (template_to_variation_name t)"
    "sv_path sv = executable_path" "sv_args sv = variation_arguments t"
    "get_icon_from_variant self (Some t) = Inr (sv_icon sv)"
    "py_percent t [py_str version] = Inr (sv_display_name sv)"
  using assms
  by (auto simp: shared_launcher_variation_def split: sum.splits)

lemma example_win32_variations:
  "extract_variations_from_path (example_launcher ''win32'')
     ''C:/Program Files/Nuke10.0v5/Nuke10.0.exe''
     [''version'' \<mapsto> ''10.0v5'', ''major_minor_version'' \<mapsto> ''10.0'']
   = ([\<lparr>sv_version = Some ''10.0v5'', sv_product = Some ''Nuke'',
           sv_display_name = ''Nuke 10.0v5'',
           sv_path = ''C:/Program Files/Nuke10.0v5/Nuke10.0.exe'',
           sv_icon = ''/engine/icon_256.png'', sv_args = []\<rparr>,
         \<lparr>sv_version = Some ''10.0v5'', sv_product = Some ''Nuke Non-commercial'',
           sv_display_name = ''Nuke 10.0v5 Non-commercial'',
           sv_path = ''C:/Program Files/Nuke10.0v5/Nuke10.0.exe'',
           sv_icon = ''/engine/icon_256.png'', sv_args = [''--nc'']\<rparr>,
         \<lparr>sv_version = Some ''10.0v5'', sv_product = Some ''NukeAssist'',
           sv_display_name = ''NukeAssist 10.0v5'',
           sv_path = ''C:/Program Files/Nuke10.0v5/Nuke10.0.exe'',
           sv_icon = ''/engine/icon_256.png'', sv_args = [''--nukeassist'']\<rparr>,
         \<lparr>sv_version = Some ''10.0v5'', sv_product = Some ''NukeStudio'',
           sv_display_name = ''NukeStudio 10.0v5'',
           sv_path = ''C:/Program Files/Nuke10.0v5/Nuke10.0.exe'',
           sv_icon = ''/engine/icon_studio_256.png'', sv_args = [''--studio'']\<rparr>,
         \<lparr>sv_version = Some ''10.0v5'', sv_product = Some ''NukeStudio Non-commercial'',
           sv_display_name = ''NukeStudio 10.0v5 Non-commercial'',
           sv_path = ''C:/Program Files/Nuke10.0v5/Nuke10.0.exe'',
           sv_icon = ''/engine/icon_studio_256.png'', sv_args = [''--studio'', ''--nc'']\<rparr>,
         \<lparr>sv_version = Some ''10.0v5'', sv_product = Some ''NukeX'',
           sv_display_name = ''NukeX 10.0v5'',
           sv_path = ''C:/Program Files/Nuke10.0v5/Nuke10.0.exe'',
           sv_icon = ''/engine/icon_x_256.png'', sv_args = [''--nukex'']\<rparr>,
         \<lparr>sv_version = Some ''10.0v5'', sv_product = Some ''NukeX Non-commercial'',
           sv_display_name = ''NukeX 10.0v5 Non-commercial'',
           sv_path = ''C:/Program Files/Nuke10.0v5/Nuke10.0.exe'',
           sv_icon = ''/engine/icon_x_256.png'', sv_args = [''--nukex'', ''--nc'']\<rparr>,
         \<lparr>sv_version = Some ''10.0v5'', sv_product = Some ''Hiero'',
           sv_display_name = ''Hiero 10.0v5'',
           sv_path = ''C:/Program Files/Nuke10.0v5/Nuke10.0.exe'',
           sv_icon = ''/engine/icon_hiero_256.png'', sv_args = [''--hiero'']\<rparr>], None)"
  by code_simp

subsection \<open>Launch arguments on the shared-launcher platforms\<close>

lemma first_match_none:
  "\<forall>(k, f) \<in> set tests. \<not> py_in k t \<Longrightarrow> first_match tests t = []"
  by (induction tests) auto

lemma first_match_unique:
  "(k, f) \<in> set tests \<Longrightarrow> py_in k t \<Longrightarrow>
   \<forall>(k', f') \<in> set tests. py_in k' t \<longrightarrow> f' = f \<Longrightarrow> first_match tests t = [f]"
  by (induction tests) auto

lemma first_match_by_flags:
  assumes "set tests = set ARGUMENT_TESTS" and "length (matching_flags t) \<le> 1"
  shows "first_match tests t = matching_flags t"
proof (cases "matching_flags t")
  case Nil
  then have "\<forall>(k, f) \<in> set ARGUMENT_TESTS. \<not> py_in k t"
    by (auto simp: matching_flags_def filter_empty_conv)
  then show ?thesis
    using assms(1) Nil by (simp add: first_match_none)
next
  case (Cons f fs)
  with assms(2) have mf: "matching_flags t = [f]" by simp
  then obtain k where kf: "filter (\<lambda>(keyword, flag). py_in keyword t) ARGUMENT_TESTS = [(k, f)]"
    by (auto simp: matching_flags_def map_eq_Cons_conv)
  then have "set (filter (\<lambda>(keyword, flag). py_in keyword t) ARGUMENT_TESTS) = {(k, f)}"
    by simp
  then have "(k, f) \<in> set tests" "py_in k t"
      "\<forall>(k', f') \<in> set tests. py_in k' t \<longrightarrow> f' = f"
    using assms(1) by auto
  then show ?thesis
    using mf by (simp add: first_match_unique)
qed

lemma matching_flags_fixed:
  "map matching_flags NUKE_7_8_VARIATION_DISPLAY_NAME_TEMPLATES =
     [[], [''--nukex''], [''--ple''], [''--nukeassist'']]"
  "map matching_flags NUKE_9_OR_HIGHER_VARIATION_DISPLAY_NAME_TEMPLATES =
     [[], [], [''--nukeassist''], [''--studio''], [''--studio''], [''--nukex''], [''--nukex''],
      [''--hiero'']]"
  by (simp_all add: matching_flags_def ARGUMENT_TESTS_def in_simps
      NUKE_7_8_VARIATION_DISPLAY_NAME_TEMPLATES_def
      NUKE_9_OR_HIGHER_VARIATION_DISPLAY_NAME_TEMPLATES_def)

lemma arguments_first_match:
  assumes "t \<in> set NUKE_7_8_VARIATION_DISPLAY_NAME_TEMPLATES
         \<or> t \<in> set NUKE_9_OR_HIGHER_VARIATION_DISPLAY_NAME_TEMPLATES"
    and "set tests = set ARGUMENT_TESTS"
  shows "variation_arguments t = first_match tests t @ NON_COMMERCIAL_FLAG t"
    and "length (first_match tests t) \<le> 1"
    and "first_match tests t = [] \<longleftrightarrow> t = ''Nuke %s'' \<or> t = ''Nuke %s Non-commercial''"
proof -
  have m: "matching_flags t \<in> set (map matching_flags NUKE_7_8_VARIATION_DISPLAY_NAME_TEMPLATES)
         \<or> matching_flags t
              \<in> set (map matching_flags NUKE_9_OR_HIGHER_VARIATION_DISPLAY_NAME_TEMPLATES)"
    using assms(1) by auto
  then have le: "length (matching_flags t) \<le> 1"
    unfolding matching_flags_fixed by auto
  have fm: "first_match tests t = matching_flags t"
    using first_match_by_flags [OF assms(2) le] .
  have src: "variation_arguments t = first_match ARGUMENT_TESTS t @ NON_COMMERCIAL_FLAG t"
    by (simp add: variation_arguments_def ARGUMENT_TESTS_def NON_COMMERCIAL_FLAG_def)
  have "first_match ARGUMENT_TESTS t = matching_flags t"
    using first_match_by_flags [OF refl le] .
  with src fm show "variation_arguments t = first_match tests t @ NON_COMMERCIAL_FLAG t"
    by simp
  show "length (first_match tests t) \<le> 1" using fm le by simp
  have "t \<in> set [''Nuke %s'', ''NukeX %s'', ''Nuke %s PLE'', ''NukeAssist %s'',
                   ''Nuke %s Non-commercial'', ''NukeStudio %s'', ''NukeStudio %s Non-commercial'',
                   ''NukeX %s Non-commercial'', ''Hiero %s'']"
    using assms(1)
    by (auto simp: NUKE_7_8_VARIATION_DISPLAY_NAME_TEMPLATES_def
        NUKE_9_OR_HIGHER_VARIATION_DISPLAY_NAME_TEMPLATES_def)
  then have "matching_flags t = [] \<longleftrightarrow> t = ''Nuke %s'' \<or> t = ''Nuke %s Non-commercial''"
    unfolding set_simps insert_iff empty_iff
    by (elim disjE FalseE) (simp_all add: matching_flags_def ARGUMENT_TESTS_def in_simps)
  with fm show "first_match tests t = [] \<longleftrightarrow> t = ''Nuke %s'' \<or> t = ''Nuke %s Non-commercial''"
    by simp
qed

text \<open>
  C2, as stated, fails: the claim says that every variation template of the selected
  list yields exactly one of \<open>--studio\<close>, \<open>--nukeassist\<close>, \<open>--nukex\<close>,
  \<open>--hiero\<close>, \<open>--ple\<close>. The base template \<open>"Nuke %s"\<close> is in both lists and
  contains none of the five keywords, so its variation has an empty argument list, and
  \<open>"Nuke %s Non-commercial"\<close> has only \<open>--nc\<close>: on a win32 host the eight
  variations of Nuke 10.0v5 carry the argument lists shown.
\<close>

theorem C2_base_template_has_no_product_flag:
  "''Nuke %s'' \<in> set NUKE_7_8_VARIATION_DISPLAY_NAME_TEMPLATES
   \<and> ''Nuke %s'' \<in> set NUKE_9_OR_HIGHER_VARIATION_DISPLAY_NAME_TEMPLATES
   \<and> variation_arguments ''Nuke %s'' = []
   \<and> map_prod (map sv_args) id
        (extract_variations_from_path (example_launcher ''win32'')
           ''C:/Program Files/Nuke10.0v5/Nuke10.0.exe''
           [''version'' \<mapsto> ''10.0v5'', ''major_minor_version'' \<mapsto> ''10.0''])
      = ([[], [''--nc''], [''--nukeassist''], [''--studio''], [''--studio'', ''--nc''],
          [''--nukex''], [''--nukex'', ''--nc''], [''--hiero'']], None)"
  unfolding example_win32_variations
  by (simp add: NUKE_7_8_VARIATION_DISPLAY_NAME_TEMPLATES_def
      NUKE_9_OR_HIGHER_VARIATION_DISPLAY_NAME_TEMPLATES_def variation_arguments_def in_simps)

text \<open>
  C2, amended. On the shared-launcher (non-darwin) platforms, the variations emitted
  for a path correspond one to one, in order, to the templates of the selected list.
  The argument list of each is the result of the keyword tests "Studio", "Assist",
  "NukeX", "Hiero", "PLE" followed by \<open>--nc\<close> exactly when the template contains
  "Non-commercial". The keyword tests give at most one flag, the same one in whatever
  order the five tests are tried; they give none exactly for the two base templates
  \<open>"Nuke %s"\<close> and \<open>"Nuke %s Non-commercial"\<close>. The NukeX Non-commercial
  variation carries exactly \<open>["--nukex", "--nc"]\<close>.
\<close>

theorem C2_launch_arguments_at_most_one_flag:
  assumes "sys_platform self \<noteq> ''darwin''"
    and "extract_variations_from_path self executable_path match = (variations, None)"
    and "set tests = set ARGUMENT_TESTS"
  shows "\<exists>templates.
           get_variation_templates_from_version (match ''version'') = Inr templates
         \<and> list_all2
             (\<lambda>t sv. sv_args sv = first_match tests t @ NON_COMMERCIAL_FLAG t
                    \<and> length (first_match tests t) \<le> 1
                    \<and> (first_match tests t = []
                         \<longleftrightarrow> t = ''Nuke %s'' \<or> t = ''Nuke %s Non-commercial'')
                    \<and> (t = ''NukeX %s Non-commercial''
                         \<longrightarrow> sv_args sv = [''--nukex'', ''--nc'']))
             templates variations"
proof -
  obtain templates where
    ts: "get_variation_templates_from_version (match ''version'') = Inr templates" and
    all: "list_all2
            (\<lambda>t sv. shared_launcher_variation self executable_path (match ''version'') t = Inr sv)
            templates variations"
    using extract_shared [OF assms(1,2)] by blast
  have fixed: "t \<in> set NUKE_7_8_VARIATION_DISPLAY_NAME_TEMPLATES
         \<or> t \<in> set NUKE_9_OR_HIGHER_VARIATION_DISPLAY_NAME_TEMPLATES"
    if "t \<in> set templates" for t
    using templates_fixed [OF ts] that by auto
  have nx: "variation_arguments ''NukeX %s Non-commercial'' = [''--nukex'', ''--nc'']"
    by (simp add: variation_arguments_def in_simps)
  have "list_all2
             (\<lambda>t sv. sv_args sv = first_match tests t @ NON_COMMERCIAL_FLAG t
                    \<and> length (first_match tests t) \<le> 1
                    \<and> (first_match tests t = []
                         \<longleftrightarrow> t = ''Nuke %s'' \<or> t = ''Nuke %s Non-commercial'')
                    \<and> (t = ''NukeX %s Non-commercial''
                         \<longrightarrow> sv_args sv = [''--nukex'', ''--nc'']))
             templates variations"
    using all
  proof (rule list.rel_mono_strong)
    fix t sv
    assume t: "t \<in> set templates" and sv: "sv \<in> set variations"
      and sh: "shared_launcher_variation self executable_path (match ''version'') t = Inr sv"
    show "sv_args sv = first_match tests t @ NON_COMMERCIAL_FLAG t
                    \<and> length (first_match tests t) \<le> 1
                    \<and> (first_match tests t = []
                         \<longleftrightarrow> t = ''Nuke %s'' \<or> t = ''Nuke %s Non-commercial'')
                    \<and> (t = ''NukeX %s Non-commercial''
                         \<longrightarrow> sv_args sv = [''--nukex'', ''--nc''])"
    proof (intro conjI impI)
      show "sv_args sv = first_match tests t @ NON_COMMERCIAL_FLAG t"
        using arguments_first_match(1) [OF fixed [OF t] assms(3)] shared_fields(4) [OF sh]
        by simp
      show "length (first_match tests t) \<le> 1"
        using arguments_first_match(2) [OF fixed [OF t] assms(3)] .
      show "(first_match tests t = []) = (t = ''Nuke %s'' \<or> t = ''Nuke %s Non-commercial'')"
        using arguments_first_match(3) [OF fixed [OF t] assms(3)] .
      show "sv_args sv = [''--nukex'', ''--nc'']" if "t = ''NukeX %s Non-commercial''"
        using shared_fields(4) [OF sh] nx unfolding that by simp
    qed
  qed
  with ts show ?thesis by blast
qed

theorem C2_launch_arguments_witness:
  "sys_platform (example_launcher ''win32'') \<noteq> ''darwin''
   \<and> set (rev ARGUMENT_TESTS) = set ARGUMENT_TESTS
   \<and> (\<exists>variations templates.
         extract_variations_from_path (example_launcher ''win32'')
           ''C:/Program Files/Nuke10.0v5/Nuke10.0.exe''
           [''version'' \<mapsto> ''10.0v5'', ''major_minor_version'' \<mapsto> ''10.0''] = (variations, None)
       \<and> get_variation_templates_from_version (Some ''10.0v5'') = Inr templates
       \<and> list_all2
            (\<lambda>t sv. sv_args sv = first_match (rev ARGUMENT_TESTS) t @ NON_COMMERCIAL_FLAG t)
            templates variations)"
proof -
  let ?m = "[''version'' \<mapsto> ''10.0v5'', ''major_minor_version'' \<mapsto> ''10.0'']"
  have p: "sys_platform (example_launcher ''win32'') \<noteq> ''darwin''"
    by (simp add: example_launcher_def example_host_def)
  have r: "set (rev ARGUMENT_TESTS) = set ARGUMENT_TESTS" by simp
  have v: "?m ''version'' = Some ''10.0v5''" by simp
  from C2_launch_arguments_at_most_one_flag [OF p example_win32_variations r]
  obtain templates where
    "get_variation_templates_from_version (?m ''version'') = Inr templates"
    "list_all2
       (\<lambda>t sv. sv_args sv = first_match (rev ARGUMENT_TESTS) t @ NON_COMMERCIAL_FLAG t
              \<and> length (first_match (rev ARGUMENT_TESTS) t) \<le> 1
              \<and> (first_match (rev ARGUMENT_TESTS) t = []
                   \<longleftrightarrow> t = ''Nuke %s'' \<or> t = ''Nuke %s Non-commercial'')
              \<and> (t = ''NukeX %s Non-commercial''
                   \<longrightarrow> sv_args sv = [''--nukex'', ''--nc'']))
       templates
       (fst (extract_variations_from_path (example_launcher ''win32'')
           ''C:/Program Files/Nuke10.0v5/Nuke10.0.exe'' ?m))"
    unfolding example_win32_variations fst_conv by blast
  then have
    "get_variation_templates_from_version (Some ''10.0v5'') = Inr templates"
    "list_all2
       (\<lambda>t sv. sv_args sv = first_match (rev ARGUMENT_TESTS) t @ NON_COMMERCIAL_FLAG t)
       templates
       (fst (extract_variations_from_path (example_launcher ''win32'')
           ''C:/Program Files/Nuke10.0v5/Nuke10.0.exe'' ?m))"
    unfolding v by (auto elim: list_all2_mono)
  then show ?thesis
    using p r unfolding example_win32_variations fst_conv by blast
qed

subsection \<open>The single-bundle platform\<close>

text \<open>
  C3. On darwin, for every matched path whose group dictionary has a variant and a
  version, variation expansion emits exactly one variation: its display name is the
  variant, a space, the version and then the suffix (nothing when the suffix group is
  absent), its path is the matched path, its icon is the one selected for the variant,
  and it has no launch arguments. An absent suffix is not a fault.
\<close>

theorem C3_darwin_single_variation:
  assumes "sys_platform self = ''darwin''"
    and "match ''variant'' = Some variant"
    and "match ''version'' = Some version"
  shows "\<exists>icon.
           get_icon_from_variant self (Some variant) = Inr icon
         \<and> extract_variations_from_path self executable_path match =
             ([\<lparr> sv_version = Some version,
                    sv_product = Some variant,
                    sv_display_name =
                      variant @ '' '' @ version
                      @ (case match ''suffix'' of None \<Rightarrow> [] | Some s \<Rightarrow> s),
                    sv_path = executable_path,
                    sv_icon = icon,
                    sv_args = [] \<rparr>], None)"
proof -
  obtain icon where icon: "get_icon_from_variant self (Some variant) = Inr icon"
    using icon_spec by blast
  then show ?thesis
    using assms
    by (simp add: extract_variations_from_path_def Let_def py_str_def yield_or_raise_def)
qed

theorem C3_darwin_single_variation_witness:
  "sys_platform (example_launcher ''darwin'') = ''darwin''
   \<and> [''version'' \<mapsto> ''10.0v5'', ''variant'' \<mapsto> ''NukeX''] ''variant'' = Some ''NukeX''
   \<and> [''version'' \<mapsto> ''10.0v5'', ''variant'' \<mapsto> ''NukeX''] ''version'' = Some ''10.0v5''
   \<and> [''version'' \<mapsto> ''10.0v5'', ''variant'' \<mapsto> ''NukeX''] ''suffix'' = None
   \<and> extract_variations_from_path (example_launcher ''darwin'')
         ''/Applications/Nuke10.0v5/NukeX10.0v5.app''
         [''version'' \<mapsto> ''10.0v5'', ''variant'' \<mapsto> ''NukeX'']
       = ([\<lparr> sv_version = Some ''10.0v5'',
                sv_product = Some ''NukeX'',
                sv_display_name = ''NukeX 10.0v5'',
                sv_path = ''/Applications/Nuke10.0v5/NukeX10.0v5.app'',
                sv_icon = ''/engine/icon_x_256.png'',
                sv_args = [] \<rparr>], None)"
proof -
  let ?m = "[''version'' \<mapsto> ''10.0v5'', ''variant'' \<mapsto> ''NukeX'']"
  have p: "sys_platform (example_launcher ''darwin'') = ''darwin''"
    by (simp add: example_launcher_def example_host_def)
  have va: "?m ''variant'' = Some ''NukeX''" and ve: "?m ''version'' = Some ''10.0v5''"
    and su: "?m ''suffix'' = None"
    by simp_all
  have ic: "get_icon_from_variant (example_launcher ''darwin'') (Some ''NukeX'')
              = Inr ''/engine/icon_x_256.png''"
    by code_simp
  from C3_darwin_single_variation [OF p va ve, of "''/Applications/Nuke10.0v5/NukeX10.0v5.app''"]
  obtain icon where
    a: "get_icon_from_variant (example_launcher ''darwin'') (Some ''NukeX'') = Inr icon" and
    b: "extract_variations_from_path (example_launcher ''darwin'')
         ''/Applications/Nuke10.0v5/NukeX10.0v5.app'' ?m
       = ([\<lparr> sv_version = Some ''10.0v5'',
                sv_product = Some ''NukeX'',
                sv_display_name =
                  ''NukeX'' @ '' '' @ ''10.0v5'' @ (case ?m ''suffix'' of None \<Rightarrow> [] | Some s \<Rightarrow> s),
                sv_path = ''/Applications/Nuke10.0v5/NukeX10.0v5.app'',
                sv_icon = icon,
                sv_args = [] \<rparr>], None)"
    by blast
  have i: "icon = ''/engine/icon_x_256.png''"
    using a ic by simp
  have d: "''NukeX'' @ '' '' @ ''10.0v5'' @ (case ?m ''suffix'' of None \<Rightarrow> [] | Some s \<Rightarrow> s)
             = ''NukeX 10.0v5''"
    by simp
  show ?thesis
    using p va ve su b unfolding i d by blast
qed

subsection \<open>Products of shared-launcher variations are always supported products\<close>

text \<open>
  C10. On the shared-launcher (non-darwin) platforms the product name of every emitted
  variation (its template with \<open>"%s"\<close> removed and double spaces collapsed) is a member
  of the variation-name list selected for the variation's version. Hence
  \<open>is_version_supported\<close> returns for it exactly what the base class's version check
  returns. On darwin the product is the raw variant taken from the path, and a variant
  such as \<open>"HieroPlayer"\<close> is rejected by the containment check even when the base
  class accepts it.
\<close>

theorem C10_shared_launcher_products_supported:
  assumes "sys_platform self \<noteq> ''darwin''"
    and "extract_variations_from_path self executable_path match = (variations, None)"
    and "sv \<in> set variations"
  shows "(\<exists>names. get_variations_from_version (sv_version sv) = Inr names
                \<and> sv_product sv \<in> Some ` set names)
       \<and> is_version_supported self sv = Inr (base_is_version_supported self sv)
       \<and> base_is_version_supported (example_launcher ''darwin'')
            \<lparr> sv_version = Some ''10.0v5'', sv_product = Some ''HieroPlayer'',
              sv_display_name = ''HieroPlayer 10.0v5'',
              sv_path = ''/Applications/Nuke10.0v5/HieroPlayer10.0v5.app'',
              sv_icon = ''/engine/icon_hiero_256.png'', sv_args = [] \<rparr>
       \<and> map_prod (map (is_version_supported (example_launcher ''darwin''))) id
            (extract_variations_from_path (example_launcher ''darwin'')
               ''/Applications/Nuke10.0v5/HieroPlayer10.0v5.app''
               [''version'' \<mapsto> ''10.0v5'', ''variant'' \<mapsto> ''HieroPlayer''])
          = ([Inr False], None)"
proof -
  obtain templates where
    ts: "get_variation_templates_from_version (match ''version'') = Inr templates" and
    all: "list_all2
            (\<lambda>t sv. shared_launcher_variation self executable_path (match ''version'') t = Inr sv)
            templates variations"
    using extract_shared [OF assms(1,2)] by blast
  from assms(3) obtain i where i: "i < length variations" "variations ! i = sv"
    by (auto simp: in_set_conv_nth)
  have len: "length templates = length variations"
    using all by (rule list_all2_lengthD)
  define t where "t = templates ! i"
  have t: "t \<in> set templates"
       "shared_launcher_variation self executable_path (match ''version'') t = Inr sv"
    using list_all2_nthD2 [OF all i(1)] i len by (simp_all add: t_def)
  have names: "get_variations_from_version (sv_version sv)
                 = Inr (map template_to_variation_name templates)"
    using names_follow_templates [OF ts] shared_fields(1) [OF t(2)] by simp
  have prod: "sv_product sv \<in> Some ` set (map template_to_variation_name templates)"
    using shared_fields(2) [OF t(2)] t(1) by auto
  have shared: "(\<exists>names. get_variations_from_version (sv_version sv) = Inr names
                \<and> sv_product sv \<in> Some ` set names)
       \<and> is_version_supported self sv = Inr (base_is_version_supported self sv)"
    using names prod by (auto simp: is_version_supported_def)
  have darwin: "base_is_version_supported (example_launcher ''darwin'')
            \<lparr> sv_version = Some ''10.0v5'', sv_product = Some ''HieroPlayer'',
              sv_display_name = ''HieroPlayer 10.0v5'',
              sv_path = ''/Applications/Nuke10.0v5/HieroPlayer10.0v5.app'',
              sv_icon = ''/engine/icon_hiero_256.png'', sv_args = [] \<rparr>
       \<and> map_prod (map (is_version_supported (example_launcher ''darwin''))) id
            (extract_variations_from_path (example_launcher ''darwin'')
               ''/Applications/Nuke10.0v5/HieroPlayer10.0v5.app''
               [''version'' \<mapsto> ''10.0v5'', ''variant'' \<mapsto> ''HieroPlayer''])
          = ([Inr False], None)"
    by code_simp
  show ?thesis using shared darwin by blast
qed

theorem C10_shared_launcher_products_supported_witness:
  "sys_platform (example_launcher ''win32'') \<noteq> ''darwin''
   \<and> (\<exists>variations sv.
         extract_variations_from_path (example_launcher ''win32'')
           ''C:/Program Files/Nuke10.0v5/Nuke10.0.exe''
           [''version'' \<mapsto> ''10.0v5'', ''major_minor_version'' \<mapsto> ''10.0''] = (variations, None)
       \<and> sv \<in> set variations
       \<and> sv_product sv = Some ''NukeX Non-commercial''
       \<and> is_version_supported (example_launcher ''win32'') sv = Inr True)"
proof -
  let ?sv = "\<lparr>sv_version = Some ''10.0v5'', sv_product = Some ''NukeX Non-commercial'',
           sv_display_name = ''NukeX 10.0v5 Non-commercial'',
           sv_path = ''C:/Program Files/Nuke10.0v5/Nuke10.0.exe'',
           sv_icon = ''/engine/icon_x_256.png'', sv_args = [''--nukex'', ''--nc'']\<rparr>"
  have p: "sys_platform (example_launcher ''win32'') \<noteq> ''darwin''"
    by (simp add: example_launcher_def example_host_def)
  have b: "base_is_version_supported (example_launcher ''win32'') ?sv"
    by (simp add: example_launcher_def example_host_def)
  let ?vs = "fst (extract_variations_from_path (example_launcher ''win32'')
           ''C:/Program Files/Nuke10.0v5/Nuke10.0.exe''
           [''version'' \<mapsto> ''10.0v5'', ''major_minor_version'' \<mapsto> ''10.0''])"
  have ex: "extract_variations_from_path (example_launcher ''win32'')
           ''C:/Program Files/Nuke10.0v5/Nuke10.0.exe''
           [''version'' \<mapsto> ''10.0v5'', ''major_minor_version'' \<mapsto> ''10.0''] = (?vs, None)"
    unfolding example_win32_variations by simp
  have mem: "?sv \<in> set ?vs"
    unfolding example_win32_variations by simp
  have "is_version_supported (example_launcher ''win32'') ?sv = Inr True"
    using C10_shared_launcher_products_supported [OF p ex mem] b
    by simp
  moreover have "sv_product ?sv = Some ''NukeX Non-commercial''" by simp
  ultimately show ?thesis
    using p ex mem by blast
qed

section \<open>The template formatter\<close>

subsection \<open>Sequential replacement on templates in chunk form\<close>

lemma py_replace_skip:
  assumes "CHR ''{'' \<notin> set xs"
  shows "py_replace (xs @ ys) (placeholder key) val = xs @ py_replace ys (placeholder key) val"
  using assms by (induction xs) (auto simp: placeholder_def)

lemma py_replace_hit:
  "py_replace (placeholder key @ ys) (placeholder key) val
     = val @ py_replace ys (placeholder key) val"
  by (simp add: placeholder_def)

lemma py_replace_skip1:
  "c \<noteq> CHR ''{'' \<Longrightarrow>
   py_replace (c # ys) (placeholder key) val = c # py_replace ys (placeholder key) val"
  by (simp add: placeholder_def)

lemma takeWhile_until:
  "c \<notin> set xs \<Longrightarrow> takeWhile (\<lambda>x. x \<noteq> c) (xs @ c # ys) = xs"
  by (induction xs) auto

lemma brace_free_prefix:
  assumes "brace_free key" "brace_free name"
    and "prefix (key @ ''}'') (name @ ''}'' @ ys)"
  shows "key = name"
proof -
  from assms(3) obtain zs where eq: "name @ ''}'' @ ys = (key @ ''}'') @ zs"
    by (auto simp: prefix_def)
  have "takeWhile (\<lambda>c. c \<noteq> CHR ''}'') (name @ ''}'' @ ys) = name"
    using assms(2) by (simp add: brace_free_def takeWhile_until)
  moreover have "takeWhile (\<lambda>c. c \<noteq> CHR ''}'') ((key @ ''}'') @ zs) = key"
    using assms(1) by (simp add: brace_free_def takeWhile_until)
  ultimately show ?thesis using eq by simp
qed

lemma placeholder_prefix_iff:
  assumes "brace_free key" "brace_free name"
  shows "prefix (placeholder key) (placeholder name @ ys) \<longleftrightarrow> key = name"
  using brace_free_prefix [OF assms] by (auto simp: placeholder_def)

lemma py_replace_miss:
  assumes "brace_free key" "brace_free name" "name \<noteq> key"
  shows "py_replace (placeholder name @ ys) (placeholder key) val
           = placeholder name @ py_replace ys (placeholder key) val"
proof -
  have np: "\<not> prefix (placeholder key) (placeholder name @ ys)"
    using placeholder_prefix_iff [OF assms(1,2)] assms(3) by simp
  have "placeholder name @ ys = CHR ''{'' # ((name @ ''}'') @ ys)"
    by (simp add: placeholder_def)
  then have "py_replace (placeholder name @ ys) (placeholder key) val
          = CHR ''{'' # py_replace ((name @ ''}'') @ ys) (placeholder key) val"
    using np by (simp add: placeholder_def)
  also have "py_replace ((name @ ''}'') @ ys) (placeholder key) val
          = (name @ ''}'') @ py_replace ys (placeholder key) val"
    using assms(2) by (intro py_replace_skip) (simp add: brace_free_def)
  finally show ?thesis by (simp add: placeholder_def)
qed

lemma render_append: "render (xs @ ys) = render xs @ render ys"
  by (induction xs rule: render.induct) auto

lemma py_replace_render:
  assumes "brace_free key" "list_all wf_chunk chunks"
  shows "py_replace (render chunks) (placeholder key) (render vs)
           = render (concat (map (fill key vs) chunks))"
  using assms(2)
proof (induction chunks rule: render.induct)
  case 1
  then show ?case by (simp add: placeholder_def)
next
  case (2 c chunks)
  then show ?case
    by (simp add: py_replace_skip1 del: py_replace.simps)
next
  case (3 name chunks)
  then show ?case
    by (simp add: py_replace_hit py_replace_miss [OF assms(1)] render_append
        del: py_replace.simps)
qed


lemma wf_fill:
  "list_all wf_chunk chunks \<Longrightarrow> list_all wf_chunk vs \<Longrightarrow>
   list_all wf_chunk (concat (map (fill key vs) chunks))"
  by (induction chunks rule: render.induct) auto

lemma substitute_untouched:
  "\<forall>name \<in> set (holes vs). lookup name = None \<Longrightarrow>
   concat (map (substitute lookup) vs) = render vs"
  by (induction vs rule: render.induct) auto

lemma substitute_fill:
  assumes "\<forall>name \<in> set (holes vs). lookup name = None"
  shows "concat (map (substitute lookup) (concat (map (fill key vs) chunks)))
           = concat (map (substitute (lookup(key \<mapsto> render vs))) chunks)"
  using substitute_untouched [OF assms]
  by (induction chunks rule: render.induct) auto

lemma map_of_rendered_None:
  "name \<notin> fst ` set lookup \<Longrightarrow> map_of (rendered lookup) name = None"
  by (induction lookup) (auto simp: rendered_def)

lemma format_render:
  assumes "\<forall>(key, vs) \<in> set lookup.
             brace_free key \<and> list_all wf_chunk vs \<and> set (holes vs) \<inter> K = {}"
    and "fst ` set lookup \<subseteq> K"
    and "list_all wf_chunk chunks"
  shows "format (render chunks) (rendered lookup)
           = concat (map (substitute (map_of (rendered lookup))) chunks)"
  using assms
proof (induction lookup arbitrary: chunks)
  case Nil
  then show ?case
    using substitute_untouched [of chunks Map.empty] by (simp add: rendered_def)
next
  case (Cons kv lookup)
  obtain key vs where kv: "kv = (key, vs)" by (cases kv)
  have key: "brace_free key" and vs: "list_all wf_chunk vs"
    and dis: "set (holes vs) \<inter> K = {}"
    using Cons.prems(1) kv by auto
  let ?chunks = "concat (map (fill key vs) chunks)"
  have step: "format (render chunks) (rendered (kv # lookup))
                = format (render ?chunks) (rendered lookup)"
    using py_replace_render [OF key Cons.prems(3), of vs] kv by (simp add: rendered_def)
  have ih: "format (render ?chunks) (rendered lookup)
              = concat (map (substitute (map_of (rendered lookup))) ?chunks)"
    using Cons.prems by (intro Cons.IH wf_fill vs) auto
  have none: "\<forall>name \<in> set (holes vs). map_of (rendered lookup) name = None"
    using dis Cons.prems(2) by (auto intro!: map_of_rendered_None)
  have m: "map_of (rendered (kv # lookup)) = (map_of (rendered lookup))(key \<mapsto> render vs)"
    using kv by (simp add: rendered_def)
  show ?case
    unfolding step ih m by (rule substitute_fill [OF none])
qed

lemma simultaneous_skip1:
  "c \<noteq> CHR ''{'' \<Longrightarrow> simultaneous tokens (c # ys) = c # simultaneous tokens ys"
proof -
  assume c: "c \<noteq> CHR ''{''"
  have "find (\<lambda>(key, val). prefix (placeholder key) (c # ys)) tokens = None"
    using c by (auto simp: find_None_iff placeholder_def)
  then show ?thesis by simp
qed

lemma simultaneous_skip:
  "CHR ''{'' \<notin> set xs \<Longrightarrow> simultaneous tokens (xs @ ys) = xs @ simultaneous tokens ys"
  by (induction xs) (auto simp: simultaneous_skip1 simp del: simultaneous.simps)

lemma find_by_key:
  "\<forall>(key, val) \<in> set tokens. P (key, val) \<longleftrightarrow> key = name \<Longrightarrow>
   find P tokens = map_option (Pair name) (map_of tokens name)"
  by (induction tokens) auto

lemma simultaneous_hole:
  assumes "\<forall>(key, val) \<in> set tokens. brace_free key" "brace_free name"
  shows "simultaneous tokens (placeholder name @ ys)
           = substitute (map_of tokens) (Hole name) @ simultaneous tokens ys"
proof -
  have "\<forall>(key, val) \<in> set tokens.
          (case (key, val) of (key, val) \<Rightarrow> prefix (placeholder key) (placeholder name @ ys))
            \<longleftrightarrow> key = name"
    using assms placeholder_prefix_iff by auto
  from find_by_key [OF this]
  have f: "find (\<lambda>(key, val). prefix (placeholder key) (CHR ''{'' # name @ ''}'' @ ys)) tokens
            = map_option (Pair name) (map_of tokens name)"
    by (simp add: placeholder_def)
  show ?thesis
  proof (cases "map_of tokens name")
    case None
    have "simultaneous tokens (CHR ''{'' # (name @ ''}'') @ ys)
            = CHR ''{'' # simultaneous tokens ((name @ ''}'') @ ys)"
      using f None by simp
    also have "simultaneous tokens ((name @ ''}'') @ ys) = (name @ ''}'') @ simultaneous tokens ys"
      using assms(2) by (intro simultaneous_skip) (simp add: brace_free_def)
    finally show ?thesis using None by (simp add: placeholder_def)
  next
    case (Some val)
    then show ?thesis using f by (simp add: placeholder_def)
  qed
qed

lemma simultaneous_render:
  assumes "\<forall>(key, val) \<in> set tokens. brace_free key" "list_all wf_chunk chunks"
  shows "simultaneous tokens (render chunks) = concat (map (substitute (map_of tokens)) chunks)"
  using assms(2)
proof (induction chunks rule: render.induct)
  case 1
  then show ?case by simp
next
  case (2 c chunks)
  then show ?case by (simp add: simultaneous_skip1 del: simultaneous.simps)
next
  case (3 name chunks)
  then show ?case
    by (simp add: simultaneous_hole [OF assms(1)] del: simultaneous.simps)
qed


text \<open>
  C8, as stated, fails: the formatter does not replace all placeholders at once but
  runs one \<open>str.replace\<close> per key, each on the result of the previous one, so a
  value that was just inserted is formatted again by the keys that follow. With the
  lookup \<open>{"a": "{b}", "b": "{a}"}\<close> the template \<open>"{a}{b}"\<close> should become
  \<open>"{b}{a}"\<close>; the formatter returns \<open>"{a}{a}"\<close> when it visits \<open>a\<close> first and
  \<open>"{b}{b}"\<close> when it visits \<open>b\<close> first.
\<close>

theorem C8_values_are_formatted_again:
  "format ''{a}{b}'' [(''a'', ''{b}''), (''b'', ''{a}'')] = ''{a}{a}''
   \<and> format ''{a}{b}'' [(''b'', ''{a}''), (''a'', ''{b}'')] = ''{b}{b}''
   \<and> simultaneous [(''a'', ''{b}''), (''b'', ''{a}'')] ''{a}{b}'' = ''{b}{a}''
   \<and> simultaneous [(''b'', ''{a}''), (''a'', ''{b}'')] ''{a}{b}'' = ''{b}{a}''"
  by (simp add: placeholder_def)

text \<open>
  C8, amended. For every template made of brace-free literal characters and
  placeholders \<open>{name}\<close> with brace-free names, and every lookup with distinct
  brace-free keys whose values are texts of the same shape containing no placeholder
  that names a key, the formatter, in whatever order it visits the keys, replaces every
  \<open>{name}\<close> whose name is a key by the key's value and leaves every other
  \<open>{name}\<close> unchanged; this is the result of replacing all placeholders at once. The
  formatter is a total function of its two arguments: it never fails on a missing key
  and has no effect besides its result.
\<close>

theorem C8_format_replaces_placeholders:
  assumes "wf_lookup lookup" and "list_all wf_chunk chunks"
  shows "format (render chunks) (rendered lookup)
           = concat (map (substitute (map_of (rendered lookup))) chunks)
       \<and> format (render chunks) (rendered lookup)
           = simultaneous (rendered lookup) (render chunks)"
proof -
  have a: "\<forall>(key, vs) \<in> set lookup.
             brace_free key \<and> list_all wf_chunk vs \<and> set (holes vs) \<inter> fst ` set lookup = {}"
    using assms(1) by (fastforce simp: wf_lookup_def list_all_iff)
  have b: "\<forall>(key, val) \<in> set (rendered lookup). brace_free key"
    using a by (auto simp: rendered_def)
  show ?thesis
    using format_render [OF a subset_refl assms(2)] simultaneous_render [OF b assms(2)]
    by simp
qed

lemma regex_lookup_chunks: "rendered REGEX_LOOKUP_CHUNKS = COMPONENT_REGEX_LOOKUP"
  by (simp add: rendered_def REGEX_LOOKUP_CHUNKS_def COMPONENT_REGEX_LOOKUP_def placeholder_def)

lemma darwin_template_chunks:
  "render DARWIN_TEMPLATE_CHUNKS
     = ''/Applications/Nuke{version}/{variant}{same_version}{suffix}.app''"
  by (simp add: DARWIN_TEMPLATE_CHUNKS_def placeholder_def)

theorem C8_format_replaces_placeholders_witness:
  "wf_lookup REGEX_LOOKUP_CHUNKS \<and> list_all wf_chunk DARWIN_TEMPLATE_CHUNKS
   \<and> format ''/Applications/Nuke{version}/{variant}{same_version}{suffix}.app''
        COMPONENT_REGEX_LOOKUP
      = ''/Applications/Nuke(?P<version>['' @ [CHR 0x5C] @ ''d.v]+)/(?P<variant>[''
          @ [CHR 0x5C] @ ''w'' @ [CHR 0x5C]
          @ ''s]+)(?P=version)(?P<suffix> Non-commercial| PLE){0,1}.app''"
proof -
  have w: "wf_lookup REGEX_LOOKUP_CHUNKS"
    by (simp add: wf_lookup_def REGEX_LOOKUP_CHUNKS_def brace_free_def)
  have c: "list_all wf_chunk DARWIN_TEMPLATE_CHUNKS"
    by (simp add: DARWIN_TEMPLATE_CHUNKS_def brace_free_def)
  have "concat (map (substitute (map_of COMPONENT_REGEX_LOOKUP)) DARWIN_TEMPLATE_CHUNKS)
      = ''/Applications/Nuke(?P<version>['' @ [CHR 0x5C] @ ''d.v]+)/(?P<variant>[''
          @ [CHR 0x5C] @ ''w'' @ [CHR 0x5C]
          @ ''s]+)(?P=version)(?P<suffix> Non-commercial| PLE){0,1}.app''"
    by (simp add: DARWIN_TEMPLATE_CHUNKS_def COMPONENT_REGEX_LOOKUP_def)
  then show ?thesis
    using C8_format_replaces_placeholders [OF w c] w c
    unfolding regex_lookup_chunks darwin_template_chunks by simp
qed

subsection \<open>Formatting twice\<close>

lemma py_replace_absent:
  "old \<noteq> [] \<Longrightarrow> \<not> sublist old s \<Longrightarrow> py_replace s old new = s"
proof (induction s)
  case Nil
  then show ?case by simp
next
  case (Cons c cs)
  then show ?case by (auto simp: sublist_Cons_right)
qed

lemma py_replace_prefix_kept:
  assumes "old \<noteq> []" "new \<noteq> []" "hd new \<notin> set q"
    and "prefix q (py_replace s old new)"
  shows "prefix q s"
  using assms(3,4)
proof (induction s arbitrary: q)
  case Nil
  then show ?case using assms(1) by simp
next
  case (Cons c cs)
  show ?case
  proof (cases "prefix old (c # cs)")
    case True
    then have "prefix q (new @ py_replace (drop (length old - 1) cs) old new)"
      using Cons.prems(2) assms(1) by simp
    then have "q = []"
      using Cons.prems(1) assms(2)
      by (cases q; cases new) (auto simp: prefix_Cons)
    then show ?thesis by simp
  next
    case False
    then have p: "prefix q (c # py_replace cs old new)"
      using Cons.prems(2) assms(1) by simp
    show ?thesis
    proof (cases q)
      case Nil
      then show ?thesis by simp
    next
      case (Cons a q')
      then show ?thesis
        using p Cons.IH [of q'] Cons.prems(1) by auto
    qed
  qed
qed

lemma sublist_drop: "sublist xs (drop n ys) \<Longrightarrow> sublist xs ys"
  by (metis append_take_drop_id sublist_append)

lemma py_replace_creates_no_occurrence:
  assumes "old \<noteq> []" "insertion_safe pat new"
    and "pat = old \<or> \<not> sublist pat s"
  shows "\<not> sublist pat (py_replace s old new)"
  using assms(3)
proof (induction s rule: length_induct)
  case (1 s)
  note IH = 1(1) and now = 1(2)
  from assms(2) have new: "new \<noteq> []" and hd: "hd new \<notin> set pat"
    and inside: "\<not> sublist pat new"
    and ends: "\<And>t. suffix t new \<Longrightarrow> t \<noteq> [] \<Longrightarrow> \<not> prefix t pat"
    by (auto simp: insertion_safe_def list_all_iff)
  have pat: "pat \<noteq> []" using inside by auto
  show ?case
  proof (cases s)
    case Nil
    then show ?thesis using assms(1) pat by simp
  next
    case (Cons c cs)
    show ?thesis
    proof (cases "prefix old (c # cs)")
      case True
      let ?rest = "drop (length old - 1) cs"
      have r: "py_replace s old new = new @ py_replace ?rest old new"
        using True Cons assms(1) by simp
      have "pat = old \<or> \<not> sublist pat ?rest"
        using now Cons by (auto dest: sublist_drop simp: sublist_Cons_right)
      moreover have "length ?rest < length s"
        using Cons by simp
      ultimately have ih: "\<not> sublist pat (py_replace ?rest old new)"
        using IH by blast
      show ?thesis
      proof
        assume "sublist pat (py_replace s old new)"
        then consider "sublist pat new" | "sublist pat (py_replace ?rest old new)"
          | xs1 xs2 where "pat = xs1 @ xs2" "suffix xs1 new" "prefix xs2 (py_replace ?rest old new)"
          unfolding r sublist_append by blast
        then show False
        proof cases
          case 1
          then show ?thesis using inside by simp
        next
          case 2
          then show ?thesis using ih by simp
        next
          case 3
          show ?thesis
          proof (cases "xs1 = []")
            case True
            then show ?thesis using 3 ih by auto
          next
            case False
            then show ?thesis using ends [OF 3(2)] 3(1) by simp
          qed
        qed
      qed
    next
      case False
      have r: "py_replace s old new = c # py_replace cs old new"
        using False Cons assms(1) by simp
      have "pat = old \<or> \<not> sublist pat cs"
        using now Cons by (auto simp: sublist_Cons_right)
      moreover have "length cs < length s"
        using Cons by simp
      ultimately have ih: "\<not> sublist pat (py_replace cs old new)"
        using IH by blast
      show ?thesis
      proof
        assume "sublist pat (py_replace s old new)"
        then have "prefix pat (py_replace s old new)"
          using ih unfolding r by (simp add: sublist_Cons_right)
        then have "prefix pat s"
          using py_replace_prefix_kept [OF assms(1) new hd] by blast
        then show False
          using now False Cons by auto
      qed
    qed
  qed
qed


lemma placeholder_nonempty: "placeholder key \<noteq> []"
  by (simp add: placeholder_def)

lemma format_absent:
  "\<forall>(key, val) \<in> set tokens. \<not> sublist (placeholder key) s \<Longrightarrow> format s tokens = s"
  by (induction tokens arbitrary: s) (auto simp: py_replace_absent placeholder_nonempty)

lemma format_clears:
  assumes "\<forall>(key, val) \<in> set tokens.
             \<forall>p \<in> P \<union> (\<lambda>(key', val'). placeholder key') ` set tokens. insertion_safe p val"
    and "\<forall>p \<in> P. \<not> sublist p s"
  shows "\<forall>p \<in> P \<union> (\<lambda>(key', val'). placeholder key') ` set tokens.
           \<not> sublist p (format s tokens)"
  using assms
proof (induction tokens arbitrary: s P)
  case Nil
  then show ?case by simp
next
  case (Cons kv tokens)
  obtain key val where kv: "kv = (key, val)" by (cases kv)
  let ?s = "py_replace s (placeholder key) val"
  let ?P = "insert (placeholder key) P"
  have safe: "insertion_safe p val" if "p \<in> ?P" for p
    using Cons.prems(1) that kv by auto
  have clean: "\<forall>p \<in> ?P. \<not> sublist p ?s"
  proof
    fix p assume p: "p \<in> ?P"
    then have "p = placeholder key \<or> \<not> sublist p s"
      using Cons.prems(2) by auto
    then show "\<not> sublist p ?s"
      using py_replace_creates_no_occurrence [OF placeholder_nonempty safe [OF p]] by blast
  qed
  have eq: "?P \<union> (\<lambda>(key', val'). placeholder key') ` set tokens
            = P \<union> (\<lambda>(key', val'). placeholder key') ` set (kv # tokens)"
    using kv by auto
  have "\<forall>(key, val) \<in> set tokens.
          \<forall>p \<in> ?P \<union> (\<lambda>(key', val'). placeholder key') ` set tokens. insertion_safe p val"
    using Cons.prems(1) unfolding eq by auto
  from Cons.IH [OF this clean]
  show ?case unfolding eq using kv by simp
qed

lemma lookup_safe_format:
  assumes "lookup_safe tokens"
  shows "\<forall>(key, val) \<in> set tokens. \<not> sublist (placeholder key) (format s tokens)"
proof -
  have "\<forall>(key, val) \<in> set tokens.
             \<forall>p \<in> {} \<union> (\<lambda>(key', val'). placeholder key') ` set tokens. insertion_safe p val"
    using assms by (auto simp: lookup_safe_def list_all_iff)
  from format_clears [OF this, of s] show ?thesis by auto
qed

lemma lookup_safe_set: "set tokens = set tokens' \<Longrightarrow> lookup_safe tokens = lookup_safe tokens'"
  by (simp add: lookup_safe_def list_all_iff)

lemma lookup_safe_glob: "lookup_safe COMPONENT_GLOB_LOOKUP"
  by code_simp

lemma lookup_safe_regex: "lookup_safe COMPONENT_REGEX_LOOKUP"
  by code_simp


text \<open>
  C9. For each of the two fixed lookups, visited in any order, formatting is
  idempotent: the formatted text contains no placeholder of the lookup's vocabulary,
  and applying the formatter to it again returns it unchanged. This holds for every
  template text, in particular for every template of the per-OS tables whatever the
  home directory is.
\<close>

theorem C9_format_idempotent:
  assumes "set tokens = set COMPONENT_GLOB_LOOKUP \<or> set tokens = set COMPONENT_REGEX_LOOKUP"
  shows "format (format template tokens) tokens = format template tokens
       \<and> list_all (\<lambda>(key, val). \<not> py_in (placeholder key) (format template tokens)) tokens"
proof -
  have "lookup_safe tokens"
    using assms lookup_safe_glob lookup_safe_regex lookup_safe_set by blast
  from lookup_safe_format [OF this, of template]
  show ?thesis
    by (simp add: format_absent py_in_def list_all_iff)
qed


theorem C9_format_idempotent_witness:
  "set (rev COMPONENT_REGEX_LOOKUP) = set COMPONENT_REGEX_LOOKUP
   \<and> format (format ''/Applications/Nuke{version}/{variant}{same_version}{suffix}.app''
               (rev COMPONENT_REGEX_LOOKUP)) (rev COMPONENT_REGEX_LOOKUP)
      = format ''/Applications/Nuke{version}/{variant}{same_version}{suffix}.app''
          (rev COMPONENT_REGEX_LOOKUP)"
  using C9_format_idempotent
    [of "rev COMPONENT_REGEX_LOOKUP"
        "''/Applications/Nuke{version}/{variant}{same_version}{suffix}.app''"]
  by simp

section \<open>The discovery pipeline\<close>

lemma gen_concat_member:
  "x \<in> set (fst (gen_concat gs)) \<Longrightarrow> \<exists>g \<in> set gs. x \<in> set (fst g)"
proof (induction gs rule: gen_concat.induct)
  case 1
  then show ?case by simp
next
  case (2 xs e gs)
  then show ?case by auto
next
  case (3 xs gs)
  then show ?case by auto
qed

lemma gen_concat_completed:
  "gen_concat gs = (ys, None) \<Longrightarrow> ys = concat (map fst gs) \<and> (\<forall>g \<in> set gs. snd g = None)"
proof (induction gs arbitrary: ys rule: gen_concat.induct)
  case 1
  then show ?case by simp
next
  case (2 xs e gs)
  then show ?case by simp
next
  case (3 xs gs)
  then show ?case by (auto simp: prod_eq_iff)
qed

lemma consume_filter:
  "consume self ys ending = Inr result \<Longrightarrow>
   ending = None \<and> result = filter (\<lambda>sv. is_version_supported self sv = Inr True) ys"
proof (induction ys arbitrary: result)
  case Nil
  then show ?case by (auto split: option.splits)
next
  case (Cons sv ys)
  then show ?case by (auto split: sum.splits if_splits)
qed

lemma map_filter_member:
  "y \<in> set (List.map_filter f xs) \<Longrightarrow> \<exists>x \<in> set xs. f x = Some y"
  by (induction xs) (auto split: option.splits)

lemma dict_items_entry:
  "(key, v) \<in> set (dict_items self entries) \<Longrightarrow> map_of entries key = Some v"
  by (auto simp: dict_items_def dest!: map_filter_member)

lemma dict_set_entries:
  "set (dict_set entries key v) \<subseteq> insert (key, v) (set entries)"
  by (induction entries key v rule: dict_set.induct) auto

lemma find_executables_entry:
  assumes "(match_template, paths) \<in> set (find_executables self match_templates)"
  shows "match_template \<in> set match_templates
       \<and> paths = map (\<lambda>x. py_replace x [CHR 0x5C] ''/'')
                    (glob_glob self (glob_form self match_template))"
proof -
  let ?step = "\<lambda>executable_matches match_template.
              let glob_pattern = glob_form self match_template;
                  matching_paths = glob_glob self glob_pattern
              in if matching_paths \<noteq> [] then
                   dict_set executable_matches match_template
                     (map (\<lambda>x. py_replace x [CHR 0x5C] ''/'') matching_paths)
                 else executable_matches"
  let ?ok = "\<lambda>ts (t, ps). t \<in> set ts
       \<and> ps = map (\<lambda>x. py_replace x [CHR 0x5C] ''/'') (glob_glob self (glob_form self t))"
  have "\<forall>e \<in> set (foldl ?step acc ts). ?ok (seen @ ts) e"
    if "\<forall>e \<in> set acc. ?ok seen e" for acc ts seen
    using that
  proof (induction ts arbitrary: acc seen)
    case Nil
    then show ?case by simp
  next
    case (Cons t ts)
    have "\<forall>e \<in> set (?step acc t). ?ok (seen @ [t]) e"
    proof
      fix e assume e: "e \<in> set (?step acc t)"
      let ?v = "map (\<lambda>x. py_replace x [CHR 0x5C] ''/'') (glob_glob self (glob_form self t))"
      have "e \<in> set acc \<or> e = (t, ?v)"
        using e dict_set_entries [of acc t ?v] by (auto simp: Let_def split: if_splits)
      then show "?ok (seen @ [t]) e"
        using Cons.prems by auto
    qed
    from Cons.IH [OF this] show ?case by simp
  qed
  from this [of "[]" "[]" match_templates] assms show ?thesis
    by (auto simp: find_executables_def)
qed

lemma extract_paths:
  assumes "sv \<in> set (fst (extract_variations_from_path self executable_path match))"
  shows "sv_path sv = executable_path"
proof (cases "sys_platform self = ''darwin''")
  case True
  then show ?thesis
    using assms
    by (auto simp: extract_variations_from_path_def Let_def yield_or_raise_def
        split: sum.splits)
next
  case False
  then obtain templates where
    "sv \<in> set (fst (gen_concat
        (map (\<lambda>t. yield_or_raise
                (shared_launcher_variation self executable_path (match ''version'') t))
           templates)))"
    using assms
    by (auto simp: extract_variations_from_path_def Let_def split: sum.splits)
  from gen_concat_member [OF this] obtain t where
    "sv \<in> set (fst (yield_or_raise
        (shared_launcher_variation self executable_path (match ''version'') t)))"
    by auto
  then show ?thesis
    by (auto simp: yield_or_raise_def shared_launcher_variation_def split: sum.splits)
qed

lemma map_filter_none: "List.map_filter (\<lambda>x. None) xs = []"
  by (induction xs) auto

lemma dict_items_empty: "dict_items self [] = []"
  by (simp add: dict_items_def map_filter_none)

lemma find_executables_empty:
  assumes "\<forall>pattern. glob_glob self pattern = []"
  shows "find_executables self match_templates = []"
proof -
  have "foldl (\<lambda>executable_matches match_template.
              let glob_pattern = glob_form self match_template;
                  matching_paths = glob_glob self glob_pattern
              in if matching_paths \<noteq> [] then
                   dict_set executable_matches match_template
                     (map (\<lambda>x. py_replace x [CHR 0x5C] ''/'') matching_paths)
                 else executable_matches) acc match_templates = acc" for acc
    using assms by (induction match_templates arbitrary: acc) (simp_all add: Let_def)
  then show ?thesis by (simp add: find_executables_def)
qed

lemma supported_templates:
  assumes "sys_platform self \<in> set [''darwin'', ''win32'', ''linux2'']"
  shows "\<exists>match_templates.
           EXECUTABLE_MATCH_TEMPLATES (home self) (sys_platform self) = Some match_templates"
proof -
  from assms consider "sys_platform self = ''darwin''" | "sys_platform self = ''win32''"
    | "sys_platform self = ''linux2''"
    by auto
  then show ?thesis
    by cases (simp_all add: EXECUTABLE_MATCH_TEMPLATES_def)
qed


lemma dict_set_keys:
  "map fst (dict_set entries key v)
     = (if key \<in> set (map fst entries) then map fst entries else map fst entries @ [key])"
  by (induction entries key v rule: dict_set.induct) auto

lemma first_use_snoc:
  "rev (remdups (rev (xs @ [x])))
     = (if x \<in> set xs then rev (remdups (rev xs)) else rev (remdups (rev xs)) @ [x])"
  by simp

lemma find_executables_keys:
  "map fst (find_executables self match_templates) = templates_with_matches self match_templates"
proof -
  let ?has = "\<lambda>t. glob_glob self (glob_form self t) \<noteq> []"
  let ?step = "\<lambda>executable_matches match_template.
              let glob_pattern = glob_form self match_template;
                  matching_paths = glob_glob self glob_pattern
              in if matching_paths \<noteq> [] then
                   dict_set executable_matches match_template
                     (map (\<lambda>x. py_replace x [CHR 0x5C] ''/'') matching_paths)
                 else executable_matches"
  have "map fst (foldl ?step acc ts) = rev (remdups (rev (seen @ filter ?has ts)))"
    if "map fst acc = rev (remdups (rev seen))" for acc ts seen
    using that
  proof (induction ts arbitrary: acc seen)
    case Nil
    then show ?case by simp
  next
    case (Cons t ts)
    show ?case
    proof (cases "?has t")
      case True
      have "map fst (?step acc t) = rev (remdups (rev (seen @ [t])))"
        using True Cons.prems by (simp add: Let_def dict_set_keys)
      from Cons.IH [OF this] True show ?thesis by simp
    next
      case False
      then show ?thesis using Cons.IH [OF Cons.prems] by (simp add: Let_def)
    qed
  qed
  from this [of "[]" "[]" match_templates] show ?thesis
    by (simp add: find_executables_def templates_with_matches_def)
qed

lemma dict_items_keys:
  "map fst (dict_items self entries)
     = filter (\<lambda>key. key \<in> set (map fst entries)) (dict_iteration self (map fst entries))"
proof -
  have "map fst (List.map_filter (\<lambda>key. map_option (Pair key) (map_of entries key)) keys)
          = filter (\<lambda>key. key \<in> set (map fst entries)) keys" for keys
  proof (induction keys)
    case Nil
    then show ?case by simp
  next
    case (Cons a keys)
    show ?case
    proof (cases "map_of entries a")
      case None
      then have "a \<notin> set (map fst entries)"
        by (simp add: map_of_eq_None_iff)
      then show ?thesis using None Cons.IH by simp
    next
      case (Some v)
      then have "a \<in> set (map fst entries)"
        by (metis map_of_eq_None_iff option.distinct(1) set_map)
      then show ?thesis using Some Cons.IH by simp
    qed
  qed
  then show ?thesis by (simp add: dict_items_def)
qed

lemma template_variations_completed:
  assumes "snd (template_variations self (match_template, executable_paths)) = None"
  shows "fst (template_variations self (match_template, executable_paths))
           = concat (map (yielded_for_path self match_template) executable_paths)"
proof (cases "re_compile (regex_form self match_template)")
  case (Inl e)
  then show ?thesis using assms by (simp add: template_variations_def)
next
  case (Inr rx)
  then have "gen_concat (map (path_variations self rx) executable_paths)
               = (fst (template_variations self (match_template, executable_paths)), None)"
    using assms by (simp add: template_variations_def prod_eq_iff)
  from gen_concat_completed [OF this]
  have "fst (template_variations self (match_template, executable_paths))
          = concat (map (\<lambda>x. fst (path_variations self rx x)) executable_paths)"
    by (simp add: comp_def)
  moreover have "yielded_for_path self match_template = (\<lambda>x. fst (path_variations self rx x))"
    using Inr by (simp add: yielded_for_path_def fun_eq_iff)
  ultimately show ?thesis by simp
qed

lemma scan_discovery_order:
  assumes "EXECUTABLE_MATCH_TEMPLATES (home self) (sys_platform self) = Some match_templates"
    and "find_software_variations self = (yielded, None)"
  shows "yielded = discovery_order self match_templates"
proof -
  let ?items = "dict_items self (find_executables self match_templates)"
  have g: "gen_concat (map (template_variations self) ?items) = (yielded, None)"
    using assms by (simp add: find_software_variations_def)
  from gen_concat_completed [OF g]
  have y: "yielded = concat (map fst (map (template_variations self) ?items))"
    and n: "\<forall>item \<in> set ?items. snd (template_variations self item) = None"
    by auto
  have m: "map (fst \<circ> template_variations self) ?items
          = map (\<lambda>(match_template, executable_paths).
                    concat (map (yielded_for_path self match_template) executable_paths)) ?items"
  proof (rule map_cong [OF refl])
    fix item assume i: "item \<in> set ?items"
    obtain t ps where item: "item = (t, ps)" by (cases item)
    have "snd (template_variations self (t, ps)) = None"
      using n i item by auto
    from template_variations_completed [OF this]
    show "(fst \<circ> template_variations self) item
            = (case item of (match_template, executable_paths) \<Rightarrow>
                 concat (map (yielded_for_path self match_template) executable_paths))"
      using item by simp
  qed
  show ?thesis
    unfolding y discovery_order_def map_map m by (rule refl)
qed

lemma shared_variation_order:
  assumes "sys_platform self \<noteq> ''darwin''"
    and "extract_variations_from_path self executable_path match = (variations, None)"
  shows "\<exists>templates.
           get_variation_templates_from_version (match ''version'') = Inr templates
         \<and> map sv_product variations = map (\<lambda>t. Some (template_to_variation_name t)) templates"
proof -
  from assms obtain templates where
    ts: "get_variation_templates_from_version (match ''version'') = Inr templates" and
    all: "list_all2
            (\<lambda>t sv. shared_launcher_variation self executable_path (match ''version'') t = Inr sv)
            templates variations"
    by (auto simp: extract_variations_from_path_def Let_def gen_concat_yield split: sum.splits)
  have "list_all2 (\<lambda>t sv. sv_product sv = Some (template_to_variation_name t)) templates variations"
    using all
    by (rule list_all2_mono) (auto simp: shared_launcher_variation_def split: sum.splits)
  then have "map sv_product variations = map (\<lambda>t. Some (template_to_variation_name t)) templates"
    by (induction rule: list_all2_induct) auto
  with ts show ?thesis by blast
qed

lemma darwin_example_platform:
  "sys_platform darwin_example = ''darwin'' \<and> home darwin_example = ''/Users/artist''"
  by (simp add: darwin_example_def example_host_def)

lemma darwin_example_templates:
  "EXECUTABLE_MATCH_TEMPLATES (home darwin_example) (sys_platform darwin_example)
     = Some [''/Applications/Nuke{version}/{variant}{same_version}{suffix}.app'']"
  by (simp add: darwin_example_platform EXECUTABLE_MATCH_TEMPLATES_def)

lemma darwin_example_found:
  "find_software_variations darwin_example
     = ([\<lparr> sv_version = Some ''10.0v5'', sv_product = Some ''NukeX'',
            sv_display_name = ''NukeX 10.0v5'',
            sv_path = ''/Applications/Nuke10.0v5/NukeX10.0v5.app'',
            sv_icon = ''/engine/icon_x_256.png'', sv_args = [] \<rparr>], None)"
  by code_simp

lemma darwin_example_glob:
  "glob_form darwin_example ''/Applications/Nuke{version}/{variant}{same_version}{suffix}.app''
     = ''/Applications/Nuke*/***.app''
   \<and> glob_match ''/Applications/Nuke*/***.app'' ''/Applications/Nuke10.0v5/Uninstall.app''
     = Inr True
   \<and> glob_glob darwin_example ''/Applications/Nuke*/***.app''
     = [''/Applications/Nuke10.0v5/NukeX10.0v5.app'', ''/Applications/Nuke10.0v5/Uninstall.app'']"
  by code_simp

lemma darwin_example_regex:
  "map_sum id (\<lambda>executable_regex.
        Option.is_none (re_match executable_regex ''/Applications/Nuke10.0v5/Uninstall.app''))
     (re_compile (regex_form darwin_example
        ''/Applications/Nuke{version}/{variant}{same_version}{suffix}.app''))
   = Inr True"
  by code_simp

lemma darwin_example_consume:
  "consume darwin_example
     [\<lparr> sv_version = Some ''10.0v5'', sv_product = Some ''NukeX'',
            sv_display_name = ''NukeX 10.0v5'',
            sv_path = ''/Applications/Nuke10.0v5/NukeX10.0v5.app'',
            sv_icon = ''/engine/icon_x_256.png'', sv_args = [] \<rparr>] None
     = Inr [\<lparr> sv_version = Some ''10.0v5'', sv_product = Some ''NukeX'',
            sv_display_name = ''NukeX 10.0v5'',
            sv_path = ''/Applications/Nuke10.0v5/NukeX10.0v5.app'',
            sv_icon = ''/engine/icon_x_256.png'', sv_args = [] \<rparr>]"
  by code_simp

lemma darwin_example_scan:
  "scan_software darwin_example
     = Inr [\<lparr> sv_version = Some ''10.0v5'', sv_product = Some ''NukeX'',
            sv_display_name = ''NukeX 10.0v5'',
            sv_path = ''/Applications/Nuke10.0v5/NukeX10.0v5.app'',
            sv_icon = ''/engine/icon_x_256.png'', sv_args = [] \<rparr>]"
  unfolding scan_software_def darwin_example_found
  by (simp only: darwin_example_platform darwin_example_consume prod.case) simp

lemma linux_example_platform:
  "sys_platform linux_example = ''linux2'' \<and> home linux_example = ''/home/artist''"
  by (simp add: linux_example_def example_host_def)

lemma linux_example_scan:
  "map_sum id (map sv_path) (scan_software linux_example)
     = Inr (replicate 8 ''/home/artist/Nuke10.0v5/Nuke10.0''
            @ replicate 8 ''/usr/local/Nuke10.0v5/Nuke10.0'')"
  by code_simp

lemma linux_example_templates:
  "EXECUTABLE_MATCH_TEMPLATES (home linux_example) (sys_platform linux_example)
     = Some [''/usr/local/Nuke{version}/Nuke{major_minor_version}'',
             ''/home/artist/Nuke{version}/Nuke{major_minor_version}'']"
  by code_simp

lemma linux_example_paths:
  "glob_glob linux_example
       (glob_form linux_example ''/usr/local/Nuke{version}/Nuke{major_minor_version}'')
     = [''/usr/local/Nuke10.0v5/Nuke10.0'']
   \<and> glob_glob linux_example
       (glob_form linux_example ''/home/artist/Nuke{version}/Nuke{major_minor_version}'')
     = [''/home/artist/Nuke10.0v5/Nuke10.0'']"
  by code_simp

lemma linux_example_iteration:
  "map fst (dict_items linux_example (find_executables linux_example
       [''/usr/local/Nuke{version}/Nuke{major_minor_version}'',
        ''/home/artist/Nuke{version}/Nuke{major_minor_version}'']))
     = [''/home/artist/Nuke{version}/Nuke{major_minor_version}'',
        ''/usr/local/Nuke{version}/Nuke{major_minor_version}'']"
  by code_simp

text \<open>
  Claim C5, as stated: every path that matches the glob form of a template of the fixed
  tables also matches the anchored, case-insensitive regex form of the same template.
  This does not hold. The glob form of the mac template is
  \<open>/Applications/Nuke*/***.app\<close>; it accepts the uninstaller
  \<open>/Applications/Nuke10.0v5/Uninstall.app\<close>, which the regex form rejects (the
  variant must be followed by the version of the directory). The finder returns the path,
  and the scan skips it.
\<close>

theorem C5_glob_accepts_what_regex_rejects:
  "EXECUTABLE_MATCH_TEMPLATES (home darwin_example) (sys_platform darwin_example)
     = Some [''/Applications/Nuke{version}/{variant}{same_version}{suffix}.app'']
   \<and> glob_form darwin_example ''/Applications/Nuke{version}/{variant}{same_version}{suffix}.app''
     = ''/Applications/Nuke*/***.app''
   \<and> glob_match ''/Applications/Nuke*/***.app'' ''/Applications/Nuke10.0v5/Uninstall.app''
     = Inr True
   \<and> glob_glob darwin_example ''/Applications/Nuke*/***.app''
     = [''/Applications/Nuke10.0v5/NukeX10.0v5.app'', ''/Applications/Nuke10.0v5/Uninstall.app'']
   \<and> map_sum id (\<lambda>executable_regex.
        Option.is_none (re_match executable_regex ''/Applications/Nuke10.0v5/Uninstall.app''))
       (re_compile (regex_form darwin_example
          ''/Applications/Nuke{version}/{variant}{same_version}{suffix}.app''))
     = Inr True
   \<and> map_sum id (map sv_path) (scan_software darwin_example)
     = Inr [''/Applications/Nuke10.0v5/NukeX10.0v5.app'']"
  using darwin_example_templates darwin_example_glob darwin_example_regex
  by (simp only: darwin_example_scan) simp

text \<open>
  Claim C5, amended: the scan relies on the regex, not on the glob. Every variation the
  scan discovers carries a path that the finder returned for a template of the
  platform's list (a match of the template's glob form, with backslashes turned into
  slashes), that the template's anchored, case-insensitive regex form matches, and from
  whose named groups the variation was extracted; a path the regex rejects yields
  nothing.
\<close>

theorem C5_variations_come_from_regex_matches:
  assumes "sv \<in> set (fst (find_software_variations self))"
  shows "\<exists>match_templates match_template executable_regex groupdict.
           EXECUTABLE_MATCH_TEMPLATES (home self) (sys_platform self) = Some match_templates
         \<and> match_template \<in> set match_templates
         \<and> sv_path sv \<in> set (map (\<lambda>x. py_replace x [CHR 0x5C] ''/'')
                                (glob_glob self (glob_form self match_template)))
         \<and> re_compile (regex_form self match_template) = Inr executable_regex
         \<and> re_match executable_regex (sv_path sv) = Some groupdict
         \<and> sv \<in> set (fst (extract_variations_from_path self (sv_path sv) groupdict))"
proof -
  from assms obtain match_templates where
    ts: "EXECUTABLE_MATCH_TEMPLATES (home self) (sys_platform self) = Some match_templates" and
    sv: "sv \<in> set (fst (gen_concat (map (template_variations self)
              (dict_items self (find_executables self match_templates)))))"
    by (auto simp: find_software_variations_def split: option.splits)
  from gen_concat_member [OF sv] obtain match_template paths where
    item: "(match_template, paths) \<in> set (dict_items self (find_executables self match_templates))"
    and sv2: "sv \<in> set (fst (template_variations self (match_template, paths)))"
    by auto
  from sv2 obtain executable_regex where
    rx: "re_compile (regex_form self match_template) = Inr executable_regex" and
    sv3: "sv \<in> set (fst (gen_concat (map (path_variations self executable_regex) paths)))"
    by (auto simp: template_variations_def split: sum.splits)
  from gen_concat_member [OF sv3] obtain path where
    path: "path \<in> set paths" and
    sv4: "sv \<in> set (fst (path_variations self executable_regex path))"
    by auto
  from sv4 obtain groupdict where
    m: "re_match executable_regex path = Some groupdict" and
    sv5: "sv \<in> set (fst (extract_variations_from_path self path groupdict))"
    by (auto simp: path_variations_def split: option.splits)
  have p: "sv_path sv = path"
    using extract_paths [OF sv5] .
  have "(match_template, paths) \<in> set (find_executables self match_templates)"
    using dict_items_entry [OF item] by (rule map_of_SomeD)
  from find_executables_entry [OF this] path
  have "match_template \<in> set match_templates"
    "path \<in> set (map (\<lambda>x. py_replace x [CHR 0x5C] ''/'')
                                (glob_glob self (glob_form self match_template)))"
    by auto
  with ts rx m sv5 p show ?thesis by blast
qed

theorem C5_variations_come_from_regex_matches_witness:
  "\<lparr> sv_version = Some ''10.0v5'', sv_product = Some ''NukeX'',
      sv_display_name = ''NukeX 10.0v5'',
      sv_path = ''/Applications/Nuke10.0v5/NukeX10.0v5.app'',
      sv_icon = ''/engine/icon_x_256.png'', sv_args = [] \<rparr>
     \<in> set (fst (find_software_variations darwin_example))
   \<and> (\<exists>executable_regex groupdict.
         re_compile (regex_form darwin_example
           ''/Applications/Nuke{version}/{variant}{same_version}{suffix}.app'')
           = Inr executable_regex
       \<and> re_match executable_regex ''/Applications/Nuke10.0v5/NukeX10.0v5.app''
           = Some groupdict)"
proof -
  let ?sv = "\<lparr> sv_version = Some ''10.0v5'', sv_product = Some ''NukeX'',
      sv_display_name = ''NukeX 10.0v5'',
      sv_path = ''/Applications/Nuke10.0v5/NukeX10.0v5.app'',
      sv_icon = ''/engine/icon_x_256.png'', sv_args = [] \<rparr>"
  have mem: "?sv \<in> set (fst (find_software_variations darwin_example))"
    by (simp only: darwin_example_found fst_conv list.set(2) insertI1)
  from C5_variations_come_from_regex_matches [OF mem]
  obtain match_templates match_template executable_regex groupdict where
    ts: "EXECUTABLE_MATCH_TEMPLATES (home darwin_example) (sys_platform darwin_example)
           = Some match_templates"
    and t: "match_template \<in> set match_templates"
    and rx: "re_compile (regex_form darwin_example match_template) = Inr executable_regex"
    and m: "re_match executable_regex (sv_path ?sv) = Some groupdict"
    by blast
  from ts have "[''/Applications/Nuke{version}/{variant}{same_version}{suffix}.app'']
                  = match_templates"
    by (simp only: darwin_example_templates option.inject)
  then have "match_template
               \<in> set [''/Applications/Nuke{version}/{variant}{same_version}{suffix}.app'']"
    using t by (rule ssubst)
  then have "match_template = ''/Applications/Nuke{version}/{variant}{same_version}{suffix}.app''"
    by simp
  with rx m have "\<exists>executable_regex groupdict.
         re_compile (regex_form darwin_example
           ''/Applications/Nuke{version}/{variant}{same_version}{suffix}.app'')
           = Inr executable_regex
       \<and> re_match executable_regex ''/Applications/Nuke10.0v5/NukeX10.0v5.app''
           = Some groupdict"
    by (simp del: regex_form_def)
  with mem show ?thesis by (rule conjI)
qed

text \<open>
  Claim C6, as stated: the returned list is grouped by the platform's template list in
  its declared order. The finder stores its results in a plain dictionary, and the scan
  walks that dictionary in its own iteration order. On Linux, for the user \<open>artist\<close>
  with Nuke 10.0v5 installed both under \<open>/usr/local\<close> and in the home directory,
  the declared order is \<open>/usr/local\<close> first, both templates have a match, the
  dictionary of the interpreter the launcher runs under visits the home template first,
  and all the variations of the home installation are returned before those of
  \<open>/usr/local\<close>.
\<close>

theorem C6_home_template_visited_first:
  "EXECUTABLE_MATCH_TEMPLATES (home linux_example) (sys_platform linux_example)
     = Some [''/usr/local/Nuke{version}/Nuke{major_minor_version}'',
             ''/home/artist/Nuke{version}/Nuke{major_minor_version}'']
   \<and> glob_glob linux_example
       (glob_form linux_example ''/usr/local/Nuke{version}/Nuke{major_minor_version}'')
     = [''/usr/local/Nuke10.0v5/Nuke10.0'']
   \<and> glob_glob linux_example
       (glob_form linux_example ''/home/artist/Nuke{version}/Nuke{major_minor_version}'')
     = [''/home/artist/Nuke10.0v5/Nuke10.0'']
   \<and> map fst (dict_items linux_example (find_executables linux_example
       [''/usr/local/Nuke{version}/Nuke{major_minor_version}'',
        ''/home/artist/Nuke{version}/Nuke{major_minor_version}'']))
     = [''/home/artist/Nuke{version}/Nuke{major_minor_version}'',
        ''/usr/local/Nuke{version}/Nuke{major_minor_version}'']
   \<and> map_sum id (map sv_path) (scan_software linux_example)
     = Inr (replicate 8 ''/home/artist/Nuke10.0v5/Nuke10.0''
            @ replicate 8 ''/usr/local/Nuke10.0v5/Nuke10.0'')"
  by (intro conjI linux_example_templates linux_example_iteration linux_example_scan
      conjunct1 [OF linux_example_paths] conjunct2 [OF linux_example_paths])

text \<open>
  Claim C6, amended: on a supported platform, a scan that returns a list returns the
  supported variations in discovery order, where discovery order groups the variations
  by the finder dictionary's items in the dictionary's iteration order (the templates
  that had matches, each once, in the order the host's dictionary visits them, which
  need not be the declared order), then by the paths of each template in the order the
  glob returned them, then by the order in which each path yields its variations. The
  list is filtered and never sorted or otherwise reordered.
\<close>

theorem C6_discovery_order:
  assumes "sys_platform self \<in> set [''darwin'', ''win32'', ''linux2'']"
    and "scan_software self = Inr result"
  shows "\<exists>match_templates.
           EXECUTABLE_MATCH_TEMPLATES (home self) (sys_platform self) = Some match_templates
         \<and> result = filter (\<lambda>sv. is_version_supported self sv = Inr True)
                      (discovery_order self match_templates)
         \<and> map fst (dict_items self (find_executables self match_templates))
             = filter (\<lambda>t. t \<in> set (templates_with_matches self match_templates))
                 (dict_iteration self (templates_with_matches self match_templates))
         \<and> list_all (\<lambda>(match_template, executable_paths).
                executable_paths = map (\<lambda>x. py_replace x [CHR 0x5C] ''/'')
                                     (glob_glob self (glob_form self match_template)))
             (dict_items self (find_executables self match_templates))"
proof -
  obtain match_templates where
    ts: "EXECUTABLE_MATCH_TEMPLATES (home self) (sys_platform self) = Some match_templates"
    using supported_templates [OF assms(1)] by blast
  obtain yielded ending where f: "find_software_variations self = (yielded, ending)"
    by (cases "find_software_variations self")
  have c: "consume self yielded ending = Inr result"
    using assms f by (simp add: scan_software_def)
  from consume_filter [OF c]
  have e: "ending = None"
    and r: "result = filter (\<lambda>sv. is_version_supported self sv = Inr True) yielded"
    by auto
  have y: "yielded = discovery_order self match_templates"
    using scan_discovery_order [OF ts] f e by simp
  have k: "map fst (dict_items self (find_executables self match_templates))
             = filter (\<lambda>t. t \<in> set (templates_with_matches self match_templates))
                 (dict_iteration self (templates_with_matches self match_templates))"
    by (simp only: dict_items_keys find_executables_keys)
  have p: "list_all (\<lambda>(match_template, executable_paths).
                executable_paths = map (\<lambda>x. py_replace x [CHR 0x5C] ''/'')
                                     (glob_glob self (glob_form self match_template)))
             (dict_items self (find_executables self match_templates))"
    unfolding list_all_iff
  proof (intro ballI)
    fix item assume "item \<in> set (dict_items self (find_executables self match_templates))"
    moreover obtain t ps where item: "item = (t, ps)"
      by (cases item)
    ultimately have "(t, ps) \<in> set (dict_items self (find_executables self match_templates))"
      by simp
    then have "(t, ps) \<in> set (find_executables self match_templates)"
      using dict_items_entry map_of_SomeD by fast
    from find_executables_entry [OF this] item
    show "case item of (match_template, executable_paths) \<Rightarrow>
            executable_paths = map (\<lambda>x. py_replace x [CHR 0x5C] ''/'')
                                 (glob_glob self (glob_form self match_template))"
      by simp
  qed
  show ?thesis using ts r y k p by blast
qed

theorem C6_discovery_order_witness:
  "sys_platform linux_example \<in> set [''darwin'', ''win32'', ''linux2'']
   \<and> (\<exists>result. scan_software linux_example = Inr result
        \<and> result = filter (\<lambda>sv. is_version_supported linux_example sv = Inr True)
                     (discovery_order linux_example
                        [''/usr/local/Nuke{version}/Nuke{major_minor_version}'',
                         ''/home/artist/Nuke{version}/Nuke{major_minor_version}'']))"
proof -
  have plat: "sys_platform linux_example \<in> set [''darwin'', ''win32'', ''linux2'']"
    by (simp add: linux_example_platform)
  obtain result where scan: "scan_software linux_example = Inr result"
    using linux_example_scan by (cases "scan_software linux_example") simp_all
  from C6_discovery_order [OF plat scan] obtain match_templates where
    ts: "EXECUTABLE_MATCH_TEMPLATES (home linux_example) (sys_platform linux_example)
           = Some match_templates"
    and r: "result = filter (\<lambda>sv. is_version_supported linux_example sv = Inr True)
                      (discovery_order linux_example match_templates)"
    by blast
  from ts have "[''/usr/local/Nuke{version}/Nuke{major_minor_version}'',
                 ''/home/artist/Nuke{version}/Nuke{major_minor_version}''] = match_templates"
    by (simp only: linux_example_templates option.inject)
  with r have "result = filter (\<lambda>sv. is_version_supported linux_example sv = Inr True)
                     (discovery_order linux_example
                        [''/usr/local/Nuke{version}/Nuke{major_minor_version}'',
                         ''/home/artist/Nuke{version}/Nuke{major_minor_version}''])"
    by (simp only:)
  with scan plat show ?thesis by blast
qed

text \<open>
  Claim C7: on a platform other than darwin, win32 and linux2 the scan returns the empty
  list and raises nothing; so does a scan on any platform when the glob finds no path for
  any pattern.
\<close>

theorem C7_unsupported_platform_or_no_match:
  assumes "sys_platform self \<notin> set [''darwin'', ''win32'', ''linux2'']
         \<or> (\<forall>pattern. glob_glob self pattern = [])"
  shows "scan_software self = Inr []"
proof (cases "sys_platform self \<in> set [''darwin'', ''win32'', ''linux2'']")
  case False
  then show ?thesis by (simp add: scan_software_def)
next
  case True
  then have empty: "\<forall>pattern. glob_glob self pattern = []"
    using assms by blast
  obtain match_templates where
    "EXECUTABLE_MATCH_TEMPLATES (home self) (sys_platform self) = Some match_templates"
    using supported_templates [OF True] by blast
  then have "find_software_variations self = ([], None)"
    by (simp add: find_software_variations_def find_executables_empty [OF empty]
        dict_items_empty)
  then show ?thesis
    using True by (simp add: scan_software_def)
qed

theorem C7_unsupported_platform_or_no_match_witness:
  "sys_platform (example_launcher ''sunos5'') \<notin> set [''darwin'', ''win32'', ''linux2'']
   \<and> scan_software (example_launcher ''sunos5'') = Inr []
   \<and> sys_platform (example_launcher ''linux2'') \<in> set [''darwin'', ''win32'', ''linux2'']
   \<and> (\<forall>pattern. glob_glob (example_launcher ''linux2'') pattern = [])
   \<and> scan_software (example_launcher ''linux2'') = Inr []"
proof -
  have a: "sys_platform (example_launcher ''sunos5'') \<notin> set [''darwin'', ''win32'', ''linux2'']"
    by (simp add: example_launcher_def example_host_def)
  have b: "sys_platform (example_launcher ''linux2'') \<in> set [''darwin'', ''win32'', ''linux2'']"
    by (simp add: example_launcher_def example_host_def)
  have c: "\<forall>pattern. glob_glob (example_launcher ''linux2'') pattern = []"
    by (simp add: example_launcher_def example_host_def)
  from a have "scan_software (example_launcher ''sunos5'') = Inr []"
    by (intro C7_unsupported_platform_or_no_match disjI1)
  moreover from c have "scan_software (example_launcher ''linux2'') = Inr []"
    by (intro C7_unsupported_platform_or_no_match disjI2)
  ultimately show ?thesis using a b c by blast
qed
end
